theory Spec2Isabelle
  imports Main
begin

section \<open>JavaScript values and objects\<close>

text \<open>
  The handlers of \<^verbatim>\<open>services/endpoint.js\<close> and of the authentication controller work on
  untyped request data. The values that can reach them from a JSON body, a query string or
  a database row are modelled by \<open>jsval\<close>. An object is a list of properties in the order
  of \<^verbatim>\<open>Object.keys\<close>; reading a property that is not there gives \<open>undefined\<close>.
\<close>

datatype jsval = JUndefined | JNull | JBool bool | JNum int | JStr string

text \<open>The truthiness test of \<^verbatim>\<open>if (v)\<close>, \<^verbatim>\<open>!v\<close>, \<^verbatim>\<open>a && b\<close> and \<^verbatim>\<open>a || b\<close>.\<close>

fun truthy :: "jsval \<Rightarrow> bool" where
  "truthy JUndefined = False"
| "truthy JNull = False"
| "truthy (JBool b) = b"
| "truthy (JNum n) = (n \<noteq> 0)"
| "truthy (JStr s) = (s \<noteq> [])"

type_synonym obj = "(string \<times> jsval) list"

definition getprop :: "obj \<Rightarrow> string \<Rightarrow> jsval" where
  "getprop ob k = (case map_of ob k of None \<Rightarrow> JUndefined | Some v \<Rightarrow> v)"

text \<open>The assignment \<^verbatim>\<open>ob[k] = v\<close>: an existing property keeps its place, a new one is added last.\<close>

fun setprop :: "string \<Rightarrow> jsval \<Rightarrow> obj \<Rightarrow> obj" where
  "setprop k v [] = [(k, v)]"
| "setprop k v ((k', v') # ob) = (if k' = k then (k, v) # ob else (k', v') # setprop k v ob)"

text \<open>\<^verbatim>\<open>a || b\<close> returns one of its operands.\<close>

definition js_or :: "jsval \<Rightarrow> jsval \<Rightarrow> jsval" where
  "js_or a b = (if truthy a then a else b)"

text \<open>
  String conversion, as \<^verbatim>\<open>+\<close> applies it to the left operand when the right one is a
  string (\<^verbatim>\<open>user.userID + hex\<close>).
\<close>

fun show_nat :: "nat \<Rightarrow> string" where
  "show_nat n =
     (if n < 10 then [''0123456789'' ! n]
      else show_nat (n div 10) @ [''0123456789'' ! (n mod 10)])"

declare show_nat.simps [simp del]

fun to_string :: "jsval \<Rightarrow> string" where
  "to_string JUndefined = ''undefined''"
| "to_string JNull = ''null''"
| "to_string (JBool b) = (if b then ''true'' else ''false'')"
| "to_string (JNum n) = (if n < 0 then CHR ''-'' # show_nat (nat (- n)) else show_nat (nat n))"
| "to_string (JStr s) = s"

section \<open>Errors\<close>

text \<open>
  An error object as the store driver or the runtime raises it: \<open>code\<close> is the
  discriminator \<^verbatim>\<open>err.code\<close> and \<open>sqlMessage\<close> the driver's detail text; both may be
  absent (a \<^verbatim>\<open>TypeError\<close> has neither).
\<close>

record js_error =
  code :: "string option"
  sqlMessage :: "string option"

definition typeError :: js_error where
  "typeError = \<lparr>code = None, sqlMessage = None\<rparr>"

text \<open>
  The errors of \<^verbatim>\<open>restify-errors\<close> that the code constructs: a status category and the
  message argument given to the constructor (\<open>None\<close> when it is called without one).
\<close>

datatype status = BadRequest | Unauthorized | Forbidden | NotFound | Conflict | InternalServer

datatype rest_error = RestError (kind: status) (message: "string option")

section \<open>Messages and error classification (\<^verbatim>\<open>services/endpoint.js\<close>)\<close>

type_synonym messages = "(string \<times> string) list option"

definition defaultMessages :: "(string \<times> string) list" where
  "defaultMessages =
     [(''create'', ''Created''),
      (''delete'', ''Deleted''),
      (''conflict'', ''Already exists''),
      (''missing'', ''Does not exist''),
      (''badRequest'', ''Wrong fields''),
      (''default'', ''Something went wrong'')]"

text \<open>\<^verbatim>\<open>a || b\<close> on operands that are a string or \<open>undefined\<close>: the empty string is falsy.\<close>

definition str_or :: "string option \<Rightarrow> string option \<Rightarrow> string option" where
  "str_or a b = (case a of None \<Rightarrow> b | Some s \<Rightarrow> if s \<noteq> [] then Some s else b)"

text \<open>
  \<^verbatim>\<open>chooseMessage = (type, messages = {}) =>
     messages[type] || defaultMessages[type] || defaultMessages.default\<close>
\<close>

definition chooseMessage :: "string \<Rightarrow> messages \<Rightarrow> string option" where
  "chooseMessage type messages =
     (let ms = (case messages of None \<Rightarrow> [] | Some m \<Rightarrow> m)
      in str_or (map_of ms type)
           (str_or (map_of defaultMessages type) (map_of defaultMessages ''default'')))"

text \<open>
  The module \<^verbatim>\<open>restify-errors\<close> is outside the repository. Its constructors take the
  message as a printf-style format, so \<^verbatim>\<open>new errors.BadRequestError(message)\<close> either
  returns the error or throws: it throws when the message is \<open>undefined\<close> and when the
  text holds a conversion, for which the call gives no argument. The module is given to
  the code that calls it, as a function of the status category and the message argument
  (\<open>None\<close> for \<open>undefined\<close>) that yields the error constructed or the exception thrown.
\<close>

type_synonym error_module = "status \<Rightarrow> string option \<Rightarrow> js_error + rest_error"

text \<open>The \<^verbatim>\<open>switch (err.code)\<close> of \<^verbatim>\<open>chooseError\<close>, case by case.\<close>

definition chooseError :: "error_module \<Rightarrow> js_error \<Rightarrow> messages \<Rightarrow> js_error + rest_error" where
  "chooseError errors err messages =
     (if code err = Some ''ER_BAD_FIELD_ERROR'' then
        errors BadRequest (chooseMessage ''badRequest'' messages)
      else if code err = Some ''ER_DUP_ENTRY'' then
        errors Conflict (chooseMessage ''conflict'' messages)
      else if code err = Some ''ER_NOT_FOUND'' then
        errors NotFound (chooseMessage ''missing'' messages)
      else if code err = Some ''ER_SIGNAL_EXCEPTION'' then
        errors BadRequest (sqlMessage err)
      else
        errors InternalServer (chooseMessage ''default'' messages))"

section \<open>Requests and what a handler does\<close>

text \<open>
  A request as the handlers read it: the parameters of the route and the query string
  (an object, as the framework's parsers leave it), the parsed body, and the user row that
  token verification attaches (absent when the request is not authenticated).
\<close>

record request =
  params :: obj
  body :: obj
  user :: "obj option"

text \<open>
  What a handler does to the outside, in order: \<^verbatim>\<open>req.log.error(err)\<close>, the link builder,
  \<^verbatim>\<open>res.send\<close> with its status (200 when none is given), \<^verbatim>\<open>next()\<close>, \<^verbatim>\<open>next(err)\<close> with
  a classified or with the raw error, an exception thrown out of the handler, and a promise
  rejected with no \<^verbatim>\<open>catch\<close> behind it.
\<close>

type_synonym links = "(string \<times> string) list"

datatype content = NoContent | Object obj | Results "obj list"

datatype next_arg = Proceed | Classified rest_error | Raw js_error

datatype effect =
    LogError js_error
  | AddLinks links
  | Send nat content
  | Next next_arg
  | Throw js_error
  | Unhandled js_error

section \<open>The store and its query builder\<close>

text \<open>
  Modelled from the spec: the relational store and its query builder are external to the
  repository, and \<^verbatim>\<open>services/db.js\<close>, the gateway over them, is not among the sources.
  The spec gives the builder as chainable \<open>where\<close>, \<open>select\<close>, \<open>join\<close>, \<open>leftJoin\<close>,
  \<open>orderBy\<close>, \<open>limit\<close>, \<open>offset\<close> and \<open>modify\<close> operations with asynchronous execution,
  returning rows or a count of affected rows, or an error with a \<open>code\<close>. The modifiers
  of the repository also chain \<open>andWhere\<close>, \<open>from\<close> and \<open>union\<close> (the builder that the
  tests of the item controller stub): \<open>andWhere\<close> is \<open>where\<close> under another name,
  \<open>from\<close> names the table the query reads, and \<open>union\<close> adds the rows of a second
  query, here the rows of a table that satisfy equalities.

  A store holds, for every table, its rows in the order the store returns them (an
  insertion appends), the error with which the store currently rejects operations on the
  table (if any), the last identity value it assigned, and its implementation-defined way
  of matching a column value against a search value.
\<close>

record store =
  tables :: "string \<Rightarrow> obj list"
  fault :: "string \<Rightarrow> js_error option"
  serial :: "string \<Rightarrow> nat"
  matches :: "jsval \<Rightarrow> jsval \<Rightarrow> bool"

datatype builder_op =
    Where string jsval
  | AndWhere string jsval
  | From string
  | Union string "(string \<times> jsval) list"
  | Select "string list"
  | Join string string string
  | LeftJoin string string string
  | OrderBy string bool
  | Limit nat
  | Offset nat

record query =
  q_table :: string
  q_where :: "(string \<times> jsval) list"
  q_select :: "string list"
  q_join :: "(bool \<times> string \<times> string \<times> string) list"
  q_order :: "(string \<times> bool) list"
  q_search :: "(string list \<times> jsval) option"
  q_limit :: "nat option"
  q_offset :: "nat option"
  q_union :: "(string \<times> (string \<times> jsval) list) list"

text \<open>\<^verbatim>\<open>db(table)\<close>: the query over a table with nothing chained yet.\<close>

definition from_table :: "string \<Rightarrow> query" where
  "from_table t =
     \<lparr>q_table = t, q_where = [], q_select = [], q_join = [], q_order = [],
      q_search = None, q_limit = None, q_offset = None, q_union = []\<rparr>"

text \<open>Each chained call adds its clause to the ones already there; a window replaces the last.\<close>

fun apply_op :: "query \<Rightarrow> builder_op \<Rightarrow> query" where
  "apply_op q (Where c v) = q\<lparr>q_where := q_where q @ [(c, v)]\<rparr>"
| "apply_op q (AndWhere c v) = q\<lparr>q_where := q_where q @ [(c, v)]\<rparr>"
| "apply_op q (From t) = q\<lparr>q_table := t\<rparr>"
| "apply_op q (Union t ws) = q\<lparr>q_union := q_union q @ [(t, ws)]\<rparr>"
| "apply_op q (Select cs) = q\<lparr>q_select := q_select q @ cs\<rparr>"
| "apply_op q (Join t c1 c2) = q\<lparr>q_join := q_join q @ [(False, t, c1, c2)]\<rparr>"
| "apply_op q (LeftJoin t c1 c2) = q\<lparr>q_join := q_join q @ [(True, t, c1, c2)]\<rparr>"
| "apply_op q (OrderBy c asc) = q\<lparr>q_order := q_order q @ [(c, asc)]\<rparr>"
| "apply_op q (Limit n) = q\<lparr>q_limit := Some n\<rparr>"
| "apply_op q (Offset n) = q\<lparr>q_offset := Some n\<rparr>"

definition chain :: "query \<Rightarrow> builder_op list \<Rightarrow> query" where
  "chain q ops = foldl apply_op q ops"

text \<open>
  A query modifier is a function of the request and the query under construction that
  chains further builder calls; the engine binds the request before it hands the modifier
  to the gateway (\<^verbatim>\<open>bindModify\<close> below), which invokes it with \<^verbatim>\<open>.modify\<close>.
\<close>

type_synonym bound_modifier = "query \<Rightarrow> builder_op list"

type_synonym modifier = "request \<Rightarrow> query \<Rightarrow> builder_op list"

definition run_modifier :: "query \<Rightarrow> bound_modifier option \<Rightarrow> query" where
  "run_modifier q m = (case m of None \<Rightarrow> q | Some f \<Rightarrow> chain q (f q))"

subsection \<open>Executing a query\<close>

text \<open>
  A row of a query with joins is the list of the rows joined so far, each under the name of
  its table, the queried table first. A column is referred to as \<^verbatim>\<open>table.column\<close> or by its
  bare name, which the first table that has the column answers.
\<close>

type_synonym jrow = "(string \<times> obj) list"

fun resolve :: "jrow \<Rightarrow> string \<Rightarrow> jsval option" where
  "resolve [] k = None"
| "resolve ((t, r) # rest) k =
     (if take (Suc (length t)) k = t @ ''.'' then map_of r (drop (Suc (length t)) k)
      else (case map_of r k of Some v \<Rightarrow> Some v | None \<Rightarrow> resolve rest k))"

definition base_row :: "jrow \<Rightarrow> obj" where
  "base_row jr = (case jr of [] \<Rightarrow> [] | (t, r) # rest \<Rightarrow> r)"

text \<open>An inner join keeps the combinations that agree on the two columns; a left join
  also keeps a row that has no partner.\<close>

definition join_rows :: "store \<Rightarrow> jrow list \<Rightarrow> bool \<times> string \<times> string \<times> string \<Rightarrow> jrow list" where
  "join_rows st jrs j =
     (case j of (left, t, c1, c2) \<Rightarrow>
        concat (map (\<lambda>jr.
          let partners = filter (\<lambda>r2. resolve (jr @ [(t, r2)]) c1 \<noteq> None \<and>
                                      resolve (jr @ [(t, r2)]) c1 = resolve (jr @ [(t, r2)]) c2)
                           (tables st t)
          in if partners = [] \<and> left then [jr] else map (\<lambda>r2. jr @ [(t, r2)]) partners) jrs))"

text \<open>The order of column values: an absent value first, then \<open>null\<close>, booleans, numbers by
  value, strings by their characters.\<close>

fun str_less :: "string \<Rightarrow> string \<Rightarrow> bool" where
  "str_less [] [] = False"
| "str_less [] (y # ys) = True"
| "str_less (x # xs) [] = False"
| "str_less (x # xs) (y # ys) =
     ((of_char x :: nat) < of_char y \<or> (x = y \<and> str_less xs ys))"

fun val_rank :: "jsval option \<Rightarrow> nat" where
  "val_rank None = 0"
| "val_rank (Some JUndefined) = 0"
| "val_rank (Some JNull) = 1"
| "val_rank (Some (JBool b)) = 2"
| "val_rank (Some (JNum n)) = 3"
| "val_rank (Some (JStr s)) = 4"

fun val_less :: "jsval option \<Rightarrow> jsval option \<Rightarrow> bool" where
  "val_less (Some (JNum a)) (Some (JNum b)) = (a < b)"
| "val_less (Some (JStr a)) (Some (JStr b)) = str_less a b"
| "val_less (Some (JBool a)) (Some (JBool b)) = (\<not> a \<and> b)"
| "val_less x y = (val_rank x < val_rank y)"

text \<open>Successive sort keys, the first criterion of highest priority.\<close>

fun before :: "(string \<times> bool) list \<Rightarrow> jrow \<Rightarrow> jrow \<Rightarrow> bool" where
  "before [] a b = False"
| "before ((c, asc) # cs) a b =
     (if val_less (resolve a c) (resolve b c) then asc
      else if val_less (resolve b c) (resolve a c) then \<not> asc
      else before cs a b)"

fun insert_ordered :: "(string \<times> bool) list \<Rightarrow> jrow \<Rightarrow> jrow list \<Rightarrow> jrow list" where
  "insert_ordered cs a [] = [a]"
| "insert_ordered cs a (b # bs) =
     (if before cs b a then b # insert_ordered cs a bs else a # b # bs)"

definition order_rows :: "(string \<times> bool) list \<Rightarrow> jrow list \<Rightarrow> jrow list" where
  "order_rows cs jrs = foldr (insert_ordered cs) jrs []"

text \<open>The rows of a table that satisfy equalities, as a \<open>union\<close> adds them.\<close>

definition united :: "store \<Rightarrow> string \<times> (string \<times> jsval) list \<Rightarrow> jrow list" where
  "united st u =
     (case u of (t, ws) \<Rightarrow>
        filter (\<lambda>jr. list_all (\<lambda>(c, v). resolve jr c = Some v) ws)
          (map (\<lambda>r. [(t, r)]) (tables st t)))"

text \<open>
  The rows a query selects: the table's rows, joined, kept when every \<open>where\<close> clause
  holds (the clauses are a conjunction of equalities) and the search (if any) matches one
  of its columns, then the rows of the unions, all sorted, then cut to the window.
\<close>

definition matched :: "store \<Rightarrow> query \<Rightarrow> jrow list" where
  "matched st q =
     (let base = map (\<lambda>r. [(q_table q, r)]) (tables st (q_table q));
          joined = foldl (join_rows st) base (q_join q);
          kept = filter (\<lambda>jr. list_all (\<lambda>(c, v). resolve jr c = Some v) (q_where q)) joined;
          found = (case q_search q of None \<Rightarrow> kept
                   | Some (cols, v) \<Rightarrow>
                       filter (\<lambda>jr. list_ex (\<lambda>c. case resolve jr c of None \<Rightarrow> False
                                                 | Some x \<Rightarrow> matches st x v) cols) kept);
          sorted = order_rows (q_order q) (found @ concat (map (united st) (q_union q)));
          skipped = drop (case q_offset q of None \<Rightarrow> 0 | Some k \<Rightarrow> k) sorted
      in (case q_limit q of None \<Rightarrow> skipped | Some n \<Rightarrow> take n skipped))"

text \<open>
  A selected column is written as a column reference, or as \<^verbatim>\<open>reference as name\<close>; in
  the object returned it goes by that name, or else by its name without the table.
\<close>

fun alias_split :: "string \<Rightarrow> string \<times> string option" where
  "alias_split [] = ([], None)"
| "alias_split (c # cs) =
     (if take 4 (c # cs) = '' as '' then ([], Some (drop 4 (c # cs)))
      else (case alias_split cs of (col, a) \<Rightarrow> (c # col, a)))"

definition unqualified :: "string \<Rightarrow> string" where
  "unqualified k = (if CHR ''.'' \<in> set k then tl (dropWhile (\<lambda>c. c \<noteq> CHR ''.'') k) else k)"

definition column_name :: "string \<Rightarrow> string" where
  "column_name s = (case alias_split s of (col, a) \<Rightarrow>
                      (case a of None \<Rightarrow> unqualified col | Some n \<Rightarrow> n))"

text \<open>The object returned for a selected row: all its columns, the queried table's
  first, or the columns that \<open>select\<close> narrowed it to.\<close>

definition project :: "query \<Rightarrow> jrow \<Rightarrow> obj" where
  "project q jr =
     (if q_select q = [] then concat (map snd jr)
      else concat (map (\<lambda>s. case resolve jr (fst (alias_split s)) of None \<Rightarrow> []
                              | Some v \<Rightarrow> [(column_name s, v)]) (q_select q)))"

definition execute :: "store \<Rightarrow> query \<Rightarrow> js_error + obj list" where
  "execute st q =
     (case fault st (q_table q) of Some e \<Rightarrow> Inl e
      | None \<Rightarrow> Inr (map (project q) (matched st q)))"

text \<open>An insertion appends the row and returns the identity value the store assigned.\<close>

definition insert_row :: "store \<Rightarrow> string \<Rightarrow> obj \<Rightarrow> js_error + (nat \<times> store)" where
  "insert_row st t r =
     (case fault st t of Some e \<Rightarrow> Inl e
      | None \<Rightarrow>
          Inr (Suc (serial st t),
               st\<lparr>tables := (tables st)(t := tables st t @ [r]),
                  serial := (serial st)(t := Suc (serial st t))\<rparr>))"

section \<open>The tenant-scoped row gateway\<close>

text \<open>
  Modelled from the spec: \<^verbatim>\<open>services/db.js\<close> is not among the sources; its fixture is.
  Every operation first builds a base query against the table, constrains it by
  \<open>organizationID\<close> when a non-falsy organization value is supplied, then invokes the
  optional modifier, then executes. The fixture of the gateway's tests gives the base
  clauses: keys are qualified by the table, as in \<^verbatim>\<open>"test.organizationID": 94\<close> and
  \<^verbatim>\<open>"test.testColumn": "testValue"\<close>.
\<close>

definition buildWhere :: "string \<Rightarrow> string option \<Rightarrow> jsval \<Rightarrow> jsval \<Rightarrow> (string \<times> jsval) list" where
  "buildWhere t column v organizationID =
     (if truthy organizationID then [(t @ ''.organizationID'', organizationID)] else []) @
     (case column of None \<Rightarrow> [] | Some c \<Rightarrow> [(t @ ''.'' @ c, v)])"

definition base_query :: "string \<Rightarrow> string option \<Rightarrow> jsval \<Rightarrow> jsval \<Rightarrow> query" where
  "base_query t column v organizationID =
     (from_table t)\<lparr>q_where := buildWhere t column v organizationID\<rparr>"

definition notFound :: js_error where
  "notFound = \<lparr>code = Some ''ER_NOT_FOUND'', sqlMessage = None\<rparr>"

text \<open>\<open>getAll\<close>: the ordered sequence of rows; \<open>sortBy\<close> and \<open>search\<close> are optional.\<close>

definition getAll_query ::
  "string \<Rightarrow> jsval \<Rightarrow> bound_modifier option \<Rightarrow> (string \<times> bool) list option \<Rightarrow>
   (string list option \<times> jsval) option \<Rightarrow> query" where
  "getAll_query t organizationID modify_arg sortBy_arg search =
     (let q = run_modifier (base_query t None JUndefined organizationID) modify_arg;
          q' = q\<lparr>q_order := q_order q @ (case sortBy_arg of None \<Rightarrow> [] | Some cs \<Rightarrow> cs)\<rparr>
      in q'\<lparr>q_search :=
              (case search of None \<Rightarrow> None
               | Some (cols, v) \<Rightarrow> Some (case cols of None \<Rightarrow> [] | Some cs \<Rightarrow> cs, v))\<rparr>)"

definition db_getAll ::
  "store \<Rightarrow> string \<Rightarrow> jsval \<Rightarrow> bound_modifier option \<Rightarrow> (string \<times> bool) list option \<Rightarrow>
   (string list option \<times> jsval) option \<Rightarrow> js_error + obj list" where
  "db_getAll st t organizationID modify_arg sortBy_arg search =
     execute st (getAll_query t organizationID modify_arg sortBy_arg search)"

text \<open>\<open>get\<close>: a single row, or \<open>NotFound\<close> if none matches.\<close>

definition get_query :: "string \<Rightarrow> string option \<Rightarrow> jsval \<Rightarrow> jsval \<Rightarrow> bound_modifier option \<Rightarrow> query" where
  "get_query t column v organizationID modify_arg =
     run_modifier (base_query t column v organizationID) modify_arg"

definition db_get ::
  "store \<Rightarrow> string \<Rightarrow> string option \<Rightarrow> jsval \<Rightarrow> jsval \<Rightarrow> bound_modifier option \<Rightarrow>
   js_error + obj" where
  "db_get st t column v organizationID modify_arg =
     (case execute st (get_query t column v organizationID modify_arg) of
        Inl e \<Rightarrow> Inl e
      | Inr [] \<Rightarrow> Inl notFound
      | Inr (row # rest) \<Rightarrow> Inr row)"

text \<open>The rows of the queried table that a mutating query addresses.\<close>

definition targets :: "store \<Rightarrow> query \<Rightarrow> obj list" where
  "targets st q = map base_row (matched st q)"

text \<open>\<open>create\<close>: inserts the payload, then fetches the created row again by its identifying
  value (the payload's, or the one the store assigned), optionally through \<open>resModify\<close>.\<close>

definition db_create ::
  "store \<Rightarrow> string \<Rightarrow> string option \<Rightarrow> obj \<Rightarrow> bound_modifier option \<Rightarrow> bound_modifier option \<Rightarrow>
   store \<times> (js_error + obj)" where
  "db_create st t column payload modify_arg resModify_arg =
     (let n = Suc (serial st t);
          key = (case column of None \<Rightarrow> JNum (int n)
                 | Some c \<Rightarrow> (case map_of payload c of None \<Rightarrow> JNum (int n) | Some v \<Rightarrow> v));
          stored = (case column of None \<Rightarrow> payload | Some c \<Rightarrow> setprop c key payload)
      in case insert_row st t stored of
           Inl e \<Rightarrow> (st, Inl e)
         | Inr (i, st') \<Rightarrow> (st', db_get st' t column key JUndefined resModify_arg))"

text \<open>\<open>update\<close>: writes the payload's columns into the addressed rows, then fetches the
  row again.\<close>

definition db_update ::
  "store \<Rightarrow> string \<Rightarrow> string \<Rightarrow> jsval \<Rightarrow> obj \<Rightarrow> jsval \<Rightarrow> bound_modifier option \<Rightarrow>
   bound_modifier option \<Rightarrow> store \<times> (js_error + obj)" where
  "db_update st t column v payload organizationID modify_arg resModify_arg =
     (case fault st t of
        Some e \<Rightarrow> (st, Inl e)
      | None \<Rightarrow>
          let hit = targets st (get_query t (Some column) v organizationID modify_arg);
              st' = st\<lparr>tables := (tables st)(t :=
                       map (\<lambda>r. if r \<in> set hit then foldl (\<lambda>a (k, x). setprop k x a) r payload else r)
                         (tables st t))\<rparr>
          in (st', db_get st' t (Some column) v organizationID resModify_arg))"

text \<open>\<open>delete\<close>: removes the addressed rows and returns the count of affected rows.\<close>

definition db_delete ::
  "store \<Rightarrow> string \<Rightarrow> string \<Rightarrow> jsval \<Rightarrow> jsval \<Rightarrow> bound_modifier option \<Rightarrow>
   store \<times> (js_error + nat)" where
  "db_delete st t column v organizationID modify_arg =
     (case fault st t of
        Some e \<Rightarrow> (st, Inl e)
      | None \<Rightarrow>
          let hit = targets st (get_query t (Some column) v organizationID modify_arg)
          in (st\<lparr>tables := (tables st)(t := filter (\<lambda>r. r \<notin> set hit) (tables st t))\<rparr>,
              Inr (length (filter (\<lambda>r. r \<in> set hit) (tables st t)))))"

section \<open>The endpoint factory (\<^verbatim>\<open>services/endpoint.js\<close>)\<close>

text \<open>The options of a handler; \<^verbatim>\<open>hasOrganizationID\<close> defaults to true.\<close>

record options =
  modify :: "modifier option"
  resModify :: "modifier option"
  messages :: messages
  hasOrganizationID :: bool
  sortBy :: "(string \<times> bool) list option"
  searchColumns :: "string list option"

definition no_options :: options where
  "no_options =
     \<lparr>modify = None, resModify = None, messages = None, hasOrganizationID = True,
      sortBy = None, searchColumns = None\<rparr>"

text \<open>\<^verbatim>\<open>bindModify\<close>: the modifier with the request bound, or \<open>undefined\<close> as it was.\<close>

definition bindModify :: "modifier option \<Rightarrow> request \<Rightarrow> bound_modifier option" where
  "bindModify m req = (case m of None \<Rightarrow> None | Some f \<Rightarrow> Some (f req))"

text \<open>
  \<^verbatim>\<open>handleError\<close>: logs the error, then forwards the classified one,
  \<^verbatim>\<open>next(chooseError(err, messages))\<close>. The handlers call it in the \<^verbatim>\<open>catch\<close> that ends
  their promise chain: when the construction of the classified error throws, \<^verbatim>\<open>next\<close>
  is not called and the promise of the handler is rejected, with no \<^verbatim>\<open>catch\<close> behind
  it.
\<close>

definition handleError :: "error_module \<Rightarrow> js_error \<Rightarrow> messages \<Rightarrow> effect list" where
  "handleError errors err ms =
     (case chooseError errors err ms of
        Inl thrown \<Rightarrow> [LogError err, Unhandled thrown]
      | Inr classified \<Rightarrow> [LogError err, Next (Classified classified)])"

text \<open>
  The gateway's organization argument, \<^verbatim>\<open>hasOrganizationID && req.user.organizationID\<close>:
  \<open>false\<close> when scoping is off; otherwise the user's property, and a \<^verbatim>\<open>TypeError\<close> when no
  user is attached.
\<close>

definition organization_arg :: "bool \<Rightarrow> request \<Rightarrow> js_error + jsval" where
  "organization_arg has req =
     (if has then (case user req of None \<Rightarrow> Inl typeError
                   | Some u \<Rightarrow> Inr (getprop u ''organizationID''))
      else Inr (JBool False))"

text \<open>
  The link builder \<^verbatim>\<open>paginate.addLinks(req, res, tableName)\<close> is not among the sources; the
  handler is given it as a function that yields the links it adds, or fails. The
  parameters of a request are an object, which is truthy, so the test
  \<^verbatim>\<open>req.params && (req.params.limit || req.params.offset)\<close> is the test of its second
  operand.
\<close>

type_synonym link_builder = "request \<Rightarrow> string \<Rightarrow> js_error + links"

definition endpoint_getAll ::
  "error_module \<Rightarrow> link_builder \<Rightarrow> store \<Rightarrow> string \<Rightarrow> options \<Rightarrow> request \<Rightarrow> effect list" where
  "endpoint_getAll errors addLinks st tableName opts req =
     (let search = (if truthy (getprop (params req) ''search'')
                    then Some (searchColumns opts, getprop (params req) ''search'') else None)
      in case organization_arg (hasOrganizationID opts) req of
           Inl e \<Rightarrow> [Throw e]
         | Inr org \<Rightarrow>
            (case db_getAll st tableName org (bindModify (modify opts) req) (sortBy opts) search of
               Inl err \<Rightarrow> handleError errors err (messages opts)
             | Inr rows \<Rightarrow>
                 let results = map (\<lambda>(i, result). setprop ''sortIndex'' (JNum (int i)) result)
                                 (enumerate 0 rows)
                 in if truthy (js_or (getprop (params req) ''limit'') (getprop (params req) ''offset''))
                    then (case addLinks req tableName of
                            Inl err \<Rightarrow> handleError errors err (messages opts)
                          | Inr ls \<Rightarrow> [AddLinks ls, Send 200 (Results results), Next Proceed])
                    else [Send 200 (Results results), Next Proceed]))"

definition endpoint_get ::
  "error_module \<Rightarrow> store \<Rightarrow> string \<Rightarrow> string \<Rightarrow> options \<Rightarrow> request \<Rightarrow> effect list" where
  "endpoint_get errors st tableName columnName opts req =
     (case organization_arg (hasOrganizationID opts) req of
        Inl e \<Rightarrow> [Throw e]
      | Inr org \<Rightarrow>
         (case db_get st tableName (Some columnName) (getprop (params req) columnName) org
                 (bindModify (modify opts) req) of
            Inl err \<Rightarrow> handleError errors err (messages opts)
          | Inr row \<Rightarrow> [Send 200 (Object row), Next Proceed]))"

text \<open>
  \<^verbatim>\<open>create\<close> first adds the organization to the body if it is missing:
  \<^verbatim>\<open>if (hasOrganizationID && !req.body.organizationID && req.user)\<close>.
\<close>

definition create_body :: "bool \<Rightarrow> request \<Rightarrow> obj" where
  "create_body has req =
     (if has \<and> \<not> truthy (getprop (body req) ''organizationID'') \<and> user req \<noteq> None
      then (case user req of None \<Rightarrow> body req
            | Some u \<Rightarrow> setprop ''organizationID'' (getprop u ''organizationID'') (body req))
      else body req)"

definition endpoint_create ::
  "error_module \<Rightarrow> store \<Rightarrow> string \<Rightarrow> string option \<Rightarrow> options \<Rightarrow> request \<Rightarrow>
   store \<times> effect list" where
  "endpoint_create errors st tableName columnName opts req =
     (case db_create st tableName columnName (create_body (hasOrganizationID opts) req)
             (bindModify (modify opts) req) (bindModify (resModify opts) req) of
        (st', Inl err) \<Rightarrow> (st', handleError errors err (messages opts))
      | (st', Inr row) \<Rightarrow> (st', [Send 200 (Object row), Next Proceed]))"

definition endpoint_update ::
  "error_module \<Rightarrow> store \<Rightarrow> string \<Rightarrow> string \<Rightarrow> options \<Rightarrow> request \<Rightarrow>
   store \<times> effect list" where
  "endpoint_update errors st tableName columnName opts req =
     (case organization_arg (hasOrganizationID opts) req of
        Inl e \<Rightarrow> (st, [Throw e])
      | Inr org \<Rightarrow>
         (case db_update st tableName columnName (getprop (params req) columnName) (body req) org
                 (bindModify (modify opts) req) (bindModify (resModify opts) req) of
            (st', Inl err) \<Rightarrow> (st', handleError errors err (messages opts))
          | (st', Inr updatedRow) \<Rightarrow> (st', [Send 200 (Object updatedRow), Next Proceed])))"

text \<open>The reply of \<^verbatim>\<open>delete\<close> to the gateway's count of affected rows.\<close>

definition delete_reply :: "string \<Rightarrow> messages \<Rightarrow> request \<Rightarrow> nat \<Rightarrow> effect list" where
  "delete_reply columnName ms req rowsAffected =
     (if rowsAffected > 0
      then [Send 200 (Object [(''message'', (case chooseMessage ''delete'' ms of
                                               None \<Rightarrow> JUndefined | Some m \<Rightarrow> JStr m)),
                              (''id'', getprop (params req) columnName)]),
            Next Proceed]
      else [Send 204 NoContent, Next Proceed])"

definition endpoint_delete ::
  "error_module \<Rightarrow> store \<Rightarrow> string \<Rightarrow> string \<Rightarrow> options \<Rightarrow> request \<Rightarrow>
   store \<times> effect list" where
  "endpoint_delete errors st tableName columnName opts req =
     (case organization_arg (hasOrganizationID opts) req of
        Inl e \<Rightarrow> (st, [Throw e])
      | Inr org \<Rightarrow>
         (case db_delete st tableName columnName (getprop (params req) columnName) org
                 (bindModify (modify opts) req) of
            (st', Inl err) \<Rightarrow> (st', handleError errors err (messages opts))
          | (st', Inr rowsAffected) \<Rightarrow>
              (st', delete_reply columnName (messages opts) req rowsAffected)))"

section \<open>Authentication and the token lifecycle (the \<^verbatim>\<open>auth\<close> controller)\<close>

text \<open>
  The libraries the controller calls are given to it: signing a token (which throws when
  it has no secret), the salted-hash comparison and hash, and the random material of a
  refresh token, as hexadecimal text for a number of bytes.
\<close>

record crypto =
  jwt_sign :: "obj \<Rightarrow> string \<Rightarrow> js_error + string"
  bcrypt_compare :: "string \<Rightarrow> string \<Rightarrow> bool"
  bcrypt_hash :: "string \<Rightarrow> nat \<Rightarrow> string"
  random_hex :: "nat \<Rightarrow> string"

definition saltRounds :: nat where
  "saltRounds = 10"

text \<open>\<^verbatim>\<open>makeToken\<close>: the payload signed, expiring in fifteen minutes.\<close>

definition makeToken :: "crypto \<Rightarrow> jsval \<Rightarrow> jsval \<Rightarrow> jsval \<Rightarrow> js_error + string" where
  "makeToken cr userID organizationID roleID =
     jwt_sign cr [(''userID'', userID), (''organizationID'', organizationID), (''roleID'', roleID)]
       ''15m''"

text \<open>\<^verbatim>\<open>bcrypt.compare\<close> and \<^verbatim>\<open>bcrypt.hash\<close> reject arguments that are not strings.\<close>

definition compare_js :: "crypto \<Rightarrow> jsval \<Rightarrow> jsval \<Rightarrow> js_error + bool" where
  "compare_js cr data encrypted =
     (case (data, encrypted) of
        (JStr d, JStr e) \<Rightarrow> Inr (bcrypt_compare cr d e)
      | _ \<Rightarrow> Inl typeError)"

definition hash_js :: "crypto \<Rightarrow> jsval \<Rightarrow> nat \<Rightarrow> js_error + string" where
  "hash_js cr data rounds =
     (case data of JStr d \<Rightarrow> Inr (bcrypt_hash cr d rounds) | _ \<Rightarrow> Inl typeError)"

definition unauthorized :: "string \<Rightarrow> effect list" where
  "unauthorized msg = [Next (Classified (RestError Unauthorized (Some msg)))]"

definition badRequest :: "string option \<Rightarrow> effect list" where
  "badRequest msg = [Next (Classified (RestError BadRequest msg))]"

text \<open>
  \<^verbatim>\<open>auth.authenticate\<close>. Every rejection and every exception of the promise chain ends in
  its \<^verbatim>\<open>catch\<close>, which answers as the wrong-password branch does.

  Modelled from the spec: the controller persists with \<^verbatim>\<open>db.create(table, row)\<close>, and
  \<^verbatim>\<open>register\<close> reads the new identity from the one-element array it resolves to; the
  gateway is not among the sources, so persisting is the store's insertion, and
  \<^verbatim>\<open>db.get('user', 'email', email)\<close> is the gateway's \<open>get\<close> with no organization and no
  modifier.
\<close>

definition authenticate :: "crypto \<Rightarrow> store \<Rightarrow> request \<Rightarrow> store \<times> effect list" where
  "authenticate cr st req =
     (if truthy (getprop (body req) ''email'') \<and> truthy (getprop (body req) ''password'') then
        (case db_get st ''user'' (Some ''email'') (getprop (body req) ''email'') JUndefined None of
           Inl e \<Rightarrow> (st, unauthorized ''Email and password combination is incorrect'')
         | Inr u \<Rightarrow>
            (case compare_js cr (getprop (body req) ''password'') (getprop u ''password'') of
               Inl e \<Rightarrow> (st, unauthorized ''Email and password combination is incorrect'')
             | Inr valid \<Rightarrow>
                 if valid then
                   (case makeToken cr (getprop u ''userID'') (getprop u ''organizationID'')
                           (getprop u ''roleID'') of
                      Inl e \<Rightarrow> (st, unauthorized ''Email and password combination is incorrect'')
                    | Inr token \<Rightarrow>
                       (let refreshToken = to_string (getprop u ''userID'') @ random_hex cr 40
                        in case insert_row st ''refreshToken''
                                  [(''userID'', getprop u ''userID''),
                                   (''refreshToken'', JStr refreshToken)] of
                             Inl e \<Rightarrow> (st, unauthorized ''Email and password combination is incorrect'')
                           | Inr (i, st') \<Rightarrow>
                               (st', [Send 200 (Object
                                        [(''id'', getprop u ''userID''),
                                         (''refreshToken'', JStr refreshToken),
                                         (''token'', JStr token),
                                         (''message'', JStr ''Authentication successful'')])])))
                 else (st, unauthorized ''Email and password combination is incorrect'')))
      else (st, badRequest (Some ''Missing email or password'')))"

text \<open>
  \<^verbatim>\<open>auth.refresh\<close>. The stored token is read with
  \<^verbatim>\<open>db('refreshToken').where('userID', userID).first().pluck('refreshToken')\<close>: the first row
  the store returns for the user, narrowed to the column, as an array of at most one value
  that \<^verbatim>\<open>([storedToken])\<close> takes apart (\<open>undefined\<close> when it is empty). The chain has no
  \<^verbatim>\<open>catch\<close>.
\<close>

definition stored_tokens :: "store \<Rightarrow> jsval \<Rightarrow> js_error + jsval list" where
  "stored_tokens st userID =
     (case execute st (chain (from_table ''refreshToken'') [Where ''userID'' userID, Limit 1]) of
        Inl e \<Rightarrow> Inl e
      | Inr rows \<Rightarrow> Inr (map (\<lambda>r. getprop r ''refreshToken'') rows))"

definition first_user :: "store \<Rightarrow> jsval \<Rightarrow> js_error + obj option" where
  "first_user st userID =
     (case execute st (chain (from_table ''user'') [Where ''userID'' userID, Limit 1]) of
        Inl e \<Rightarrow> Inl e
      | Inr [] \<Rightarrow> Inr None
      | Inr (u # rest) \<Rightarrow> Inr (Some u))"

definition refresh :: "crypto \<Rightarrow> store \<Rightarrow> request \<Rightarrow> store \<times> effect list" where
  "refresh cr st req =
     (if truthy (getprop (body req) ''refreshToken'') \<and> truthy (getprop (body req) ''userID'') then
        (case stored_tokens st (getprop (body req) ''userID'') of
           Inl e \<Rightarrow> (st, [Unhandled e])
         | Inr plucked \<Rightarrow>
            (let storedToken = (case plucked of [] \<Rightarrow> JUndefined | x # rest \<Rightarrow> x)
             in if getprop (body req) ''refreshToken'' = storedToken then
                  (case first_user st (getprop (body req) ''userID'') of
                     Inl e \<Rightarrow> (st, [Unhandled e])
                   | Inr None \<Rightarrow> (st, [Unhandled typeError])
                   | Inr (Some u) \<Rightarrow>
                      (case makeToken cr (getprop u ''userID'') (getprop u ''organizationID'')
                              (getprop u ''roleID'') of
                         Inl e \<Rightarrow> (st, [Unhandled e])
                       | Inr token \<Rightarrow>
                           (st, [Send 200 (Object
                                   [(''token'', JStr token),
                                    (''message'', JStr ''Token refreshed successfully'')])])))
                else (st, unauthorized ''Refresh token is invalid'')))
      else (st, badRequest (Some ''Request must contain refresh token and user ID'')))"

text \<open>
  \<^verbatim>\<open>auth.register\<close>. The keys of the body are checked for presence only; the errors of
  hashing and of the insertion go to \<^verbatim>\<open>next\<close> as they are (\<^verbatim>\<open>.catch(next)\<close>).
\<close>

definition required :: "string list" where
  "required = [''firstName'', ''lastName'', ''email'', ''password'', ''organizationID'']"

definition register :: "crypto \<Rightarrow> store \<Rightarrow> request \<Rightarrow> store \<times> effect list" where
  "register cr st req =
     (let bodyKeys = map fst (body req)
      in if list_all (\<lambda>key. key \<in> set bodyKeys) required then
           (case hash_js cr (getprop (body req) ''password'') saltRounds of
              Inl e \<Rightarrow> (st, [Next (Raw e)])
            | Inr hash \<Rightarrow>
               (case insert_row st ''user'' (setprop ''password'' (JStr hash) (body req)) of
                  Inl e \<Rightarrow> (st, [Next (Raw e)])
                | Inr (userID, st') \<Rightarrow>
                    (st', [Send 201 (Object
                             [(''id'', JNum (int userID)),
                              (''message'', JStr ''User successfully registered'')])])))
         else (st, badRequest None))"

section \<open>Example data\<close>

text \<open>A store with two kits of two organizations, and a request of a member of the first.\<close>

definition kit_store :: store where
  "kit_store =
     \<lparr>tables = (\<lambda>t. if t = ''kit''
                      then [[(''kitID'', JNum 1), (''name'', JStr ''Camera kit''), (''organizationID'', JNum 94)],
                            [(''kitID'', JNum 2), (''name'', JStr ''Audio kit''), (''organizationID'', JNum 7)]]
                      else []),
      fault = (\<lambda>t. None), serial = (\<lambda>t. 0), matches = (\<lambda>a b. a = b)\<rparr>"

definition kit_request :: request where
  "kit_request =
     \<lparr>params = [(''kitID'', JNum 1)], body = [],
      user = Some [(''userID'', JNum 5), (''organizationID'', JNum 94), (''roleID'', JNum 2)]\<rparr>"

text \<open>
  Libraries for the examples: a signature that names the user, a hash that is checked by
  recomputing it, and random material of the right length. A store with one registered
  user, and her log-in.
\<close>

definition demo_crypto :: crypto where
  "demo_crypto =
     \<lparr>jwt_sign = (\<lambda>payload expiresIn. Inr (''jwt:'' @ to_string (getprop payload ''userID''))),
      bcrypt_compare = (\<lambda>d h. h = ''$2b$'' @ d),
      bcrypt_hash = (\<lambda>d rounds. ''$2b$'' @ d),
      random_hex = (\<lambda>n. replicate (2 * n) CHR ''a'')\<rparr>"

definition auth_store :: store where
  "auth_store =
     \<lparr>tables = (\<lambda>t. if t = ''user''
                      then [[(''userID'', JNum 1), (''email'', JStr ''ada@example.org''),
                             (''password'', JStr ''$2b$secret''), (''organizationID'', JNum 94),
                             (''roleID'', JNum 2)]]
                      else []),
      fault = (\<lambda>t. None), serial = (\<lambda>t. 0), matches = (\<lambda>a b. a = b)\<rparr>"

definition login :: "string \<Rightarrow> string \<Rightarrow> request" where
  "login email password =
     \<lparr>params = [], body = [(''email'', JStr email), (''password'', JStr password)], user = None\<rparr>"

definition too_many_connections :: js_error where
  "too_many_connections =
     \<lparr>code = Some ''ER_CON_COUNT_ERROR'', sqlMessage = Some ''Too many connections''\<rparr>"

text \<open>Stores that reject the operations on one table.\<close>

definition refresh_down :: store where
  "refresh_down =
     auth_store\<lparr>fault := (\<lambda>t. if t = ''refreshToken'' then Some too_many_connections else None)\<rparr>"

definition users_down :: store where
  "users_down =
     auth_store\<lparr>fault := (\<lambda>t. if t = ''user'' then Some too_many_connections else None)\<rparr>"

text \<open>A refresh request, and the store after the user has logged in twice: the second
  log-in draws other random material than the first.\<close>

definition refreshing :: "int \<Rightarrow> string \<Rightarrow> request" where
  "refreshing userID token =
     \<lparr>params = [], body = [(''refreshToken'', JStr token), (''userID'', JNum userID)], user = None\<rparr>"

definition second_crypto :: crypto where
  "second_crypto = demo_crypto\<lparr>random_hex := (\<lambda>n. replicate (2 * n) CHR ''b'')\<rparr>"

definition first_token :: string where
  "first_token = ''1'' @ replicate 80 CHR ''a''"

definition second_token :: string where
  "second_token = ''1'' @ replicate 80 CHR ''b''"

definition after_two_logins :: store where
  "after_two_logins =
     fst (authenticate second_crypto
            (fst (authenticate demo_crypto auth_store (login ''ada@example.org'' ''secret'')))
            (login ''ada@example.org'' ''secret''))"

text \<open>A registration, complete and with a password that is \<open>null\<close>.\<close>

definition registration :: "jsval \<Rightarrow> request" where
  "registration password =
     \<lparr>params = [],
      body = [(''firstName'', JStr ''Grace''), (''lastName'', JStr ''Hopper''),
              (''email'', JStr ''grace@example.org''), (''password'', password),
              (''organizationID'', JNum 94)],
      user = None\<rparr>"

text \<open>A link builder, and list requests: one with a \<open>limit\<close>, one whose \<open>limit\<close> is
  present but empty (\<^verbatim>\<open>?limit=\<close>), and one of a user whose organization is \<open>null\<close>.\<close>

definition demo_links :: link_builder where
  "demo_links = (\<lambda>req t. Inr [(''next'', ''/kit?limit=1&offset=1'')])"

definition limit_request :: "string \<Rightarrow> request" where
  "limit_request limit = kit_request\<lparr>params := [(''limit'', JStr limit)]\<rparr>"

definition orphan_request :: request where
  "orphan_request =
     \<lparr>params = [(''kitID'', JNum 2)], body = [],
      user = Some [(''userID'', JNum 6), (''organizationID'', JNull), (''roleID'', JNum 2)]\<rparr>"

text \<open>The member of organization 94 addressing the kit of organization 7.\<close>

definition foreign_request :: request where
  "foreign_request = kit_request\<lparr>params := [(''kitID'', JNum 2)], body := [(''name'', JStr ''Mine'')]\<rparr>"

text \<open>
  An error module for the examples, with printf-style constructors: a constructor throws
  when the message is \<open>undefined\<close> and when the text holds one of the conversions
  \<^verbatim>\<open>%s\<close>, \<^verbatim>\<open>%d\<close> and \<^verbatim>\<open>%j\<close> (\<^verbatim>\<open>%%\<close> is a percent sign and no conversion); otherwise it
  returns the error with the text. The examples use no other text with a percent sign.
\<close>

fun takes_argument :: "string \<Rightarrow> bool" where
  "takes_argument (c # d # cs) =
     (if c = CHR ''%'' then (if d = CHR ''%'' then takes_argument cs
                             else d \<in> set ''sdj'' \<or> takes_argument (d # cs))
      else takes_argument (d # cs))"
| "takes_argument cs = False"

definition format_failure :: js_error where
  "format_failure = \<lparr>code = None, sqlMessage = None\<rparr>"

definition printf_errors :: error_module where
  "printf_errors k msg =
     (case msg of None \<Rightarrow> Inl format_failure
      | Some m \<Rightarrow> if takes_argument m then Inl format_failure else Inr (RestError k (Some m)))"

text \<open>
  A validation signal of the store whose detail text quotes a barcode that a client
  chose, \<^verbatim>\<open>A%sB\<close>; the store raising it on the table of kits; and a signal with no
  detail text.
\<close>

definition barcode_signal :: js_error where
  "barcode_signal =
     \<lparr>code = Some ''ER_SIGNAL_EXCEPTION'', sqlMessage = Some ''Barcode A%sB is already rented''\<rparr>"

definition signalling_store :: store where
  "signalling_store =
     kit_store\<lparr>fault := (\<lambda>t. if t = ''kit'' then Some barcode_signal else None)\<rparr>"

definition bare_signal :: js_error where
  "bare_signal = \<lparr>code = Some ''ER_SIGNAL_EXCEPTION'', sqlMessage = None\<rparr>"

text \<open>Requests to create a kit: of a member of organization 94, with a body that may
  carry an \<open>organizationID\<close>, and of nobody.\<close>

definition creating :: "obj \<Rightarrow> request" where
  "creating b = kit_request\<lparr>params := [], body := b\<rparr>"

definition anonymous_creating :: "obj \<Rightarrow> request" where
  "anonymous_creating b = \<lparr>params = [], body = b, user = None\<rparr>"

section \<open>Properties of the error classification\<close>

lemma chooseMessage_custom:
  "map_of (case ms of None \<Rightarrow> [] | Some m \<Rightarrow> m) ty = Some c \<Longrightarrow> c \<noteq> [] \<Longrightarrow> chooseMessage ty ms = Some c"
  by (simp add: chooseMessage_def str_or_def)

lemma chooseMessage_default:
  "map_of (case ms of None \<Rightarrow> [] | Some m \<Rightarrow> m) ty \<in> {None, Some []} \<Longrightarrow>
   chooseMessage ty ms = str_or (map_of defaultMessages ty) (map_of defaultMessages ''default'')"
  by (auto simp: chooseMessage_def str_or_def)

lemma default_texts:
  "str_or (map_of defaultMessages ''badRequest'') (map_of defaultMessages ''default'') = Some ''Wrong fields''"
  "str_or (map_of defaultMessages ''conflict'') (map_of defaultMessages ''default'') = Some ''Already exists''"
  "str_or (map_of defaultMessages ''missing'') (map_of defaultMessages ''default'') = Some ''Does not exist''"
  "str_or (map_of defaultMessages ''default'') (map_of defaultMessages ''default'') = Some ''Something went wrong''"
  "str_or (map_of defaultMessages ''delete'') (map_of defaultMessages ''default'') = Some ''Deleted''"
  by (simp_all add: str_or_def defaultMessages_def)

text \<open>
  The constructor that \<open>chooseError\<close> calls and the message it hands to it, for every
  error, every module and every configuration of custom messages: the category is fixed by
  the code of the error, and the message is the default text of the category unless a
  custom text is configured for it.
\<close>

lemma chooseError_constructs:
  "(let cfg = (case ms of None \<Rightarrow> [] | Some m \<Rightarrow> m) in
    (code err = Some ''ER_BAD_FIELD_ERROR'' \<longrightarrow>
       (map_of cfg ''badRequest'' \<in> {None, Some []} \<longrightarrow>
          chooseError errors err ms = errors BadRequest (Some ''Wrong fields'')) \<and>
       (\<forall>c. map_of cfg ''badRequest'' = Some c \<and> c \<noteq> [] \<longrightarrow>
          chooseError errors err ms = errors BadRequest (Some c))) \<and>
    (code err = Some ''ER_DUP_ENTRY'' \<longrightarrow>
       (map_of cfg ''conflict'' \<in> {None, Some []} \<longrightarrow>
          chooseError errors err ms = errors Conflict (Some ''Already exists'')) \<and>
       (\<forall>c. map_of cfg ''conflict'' = Some c \<and> c \<noteq> [] \<longrightarrow>
          chooseError errors err ms = errors Conflict (Some c))) \<and>
    (code err = Some ''ER_NOT_FOUND'' \<longrightarrow>
       (map_of cfg ''missing'' \<in> {None, Some []} \<longrightarrow>
          chooseError errors err ms = errors NotFound (Some ''Does not exist'')) \<and>
       (\<forall>c. map_of cfg ''missing'' = Some c \<and> c \<noteq> [] \<longrightarrow>
          chooseError errors err ms = errors NotFound (Some c))) \<and>
    (code err = Some ''ER_SIGNAL_EXCEPTION'' \<longrightarrow>
       chooseError errors err ms = errors BadRequest (sqlMessage err)) \<and>
    (code err \<notin> {Some ''ER_BAD_FIELD_ERROR'', Some ''ER_DUP_ENTRY'', Some ''ER_NOT_FOUND'',
                  Some ''ER_SIGNAL_EXCEPTION''} \<longrightarrow>
       (map_of cfg ''default'' \<in> {None, Some []} \<longrightarrow>
          chooseError errors err ms = errors InternalServer (Some ''Something went wrong'')) \<and>
       (\<forall>c. map_of cfg ''default'' = Some c \<and> c \<noteq> [] \<longrightarrow>
          chooseError errors err ms = errors InternalServer (Some c))))"
proof -
  let ?cfg = "case ms of None \<Rightarrow> [] | Some m \<Rightarrow> m"
  have 1: "chooseError errors err ms = errors BadRequest (chooseMessage ''badRequest'' ms)"
    if "code err = Some ''ER_BAD_FIELD_ERROR''"
    using that by (simp add: chooseError_def)
  have 2: "chooseError errors err ms = errors Conflict (chooseMessage ''conflict'' ms)"
    if "code err = Some ''ER_DUP_ENTRY''"
    using that by (simp add: chooseError_def)
  have 3: "chooseError errors err ms = errors NotFound (chooseMessage ''missing'' ms)"
    if "code err = Some ''ER_NOT_FOUND''"
    using that by (simp add: chooseError_def)
  have 4: "chooseError errors err ms = errors BadRequest (sqlMessage err)"
    if "code err = Some ''ER_SIGNAL_EXCEPTION''"
    using that by (simp add: chooseError_def)
  have 5: "chooseError errors err ms = errors InternalServer (chooseMessage ''default'' ms)"
    if "code err \<notin> {Some ''ER_BAD_FIELD_ERROR'', Some ''ER_DUP_ENTRY'', Some ''ER_NOT_FOUND'',
                  Some ''ER_SIGNAL_EXCEPTION''}"
    using that by (simp add: chooseError_def)
  have dflt: "chooseMessage ty ms = str_or (map_of defaultMessages ty) (map_of defaultMessages ''default'')"
    if "map_of ?cfg ty \<in> {None, Some []}" for ty
    using that by (rule chooseMessage_default)
  have cust: "errors k (chooseMessage ty ms) = errors k (Some c)"
    if "map_of ?cfg ty = Some c" "c \<noteq> []" for ty c k
    using chooseMessage_custom [OF that] by simp
  show ?thesis
    unfolding Let_def
    by (intro conjI impI allI) (auto simp: 1 2 3 4 5 dflt default_texts intro: cust)
qed

text \<open>
  Claim C4. \<open>chooseError\<close> hands the text it chose to a constructor that reads it as a
  printf-style format. For a validation signal of the store whose detail text holds a
  conversion, the constructor throws: \<open>chooseError\<close> returns no classified error, and the
  handler, in whose \<^verbatim>\<open>catch\<close> this happens, logs the error of the store and never calls
  \<^verbatim>\<open>next\<close>. The same happens for a signal with no detail text, and for a uniqueness
  violation when the text configured for conflicts holds a conversion; with the default
  text the conflict is classified.
\<close>

theorem chooseError_printf_throws:
  "chooseError printf_errors barcode_signal None = Inl format_failure \<and>
   endpoint_get printf_errors signalling_store ''kit'' ''kitID'' no_options kit_request =
     [LogError barcode_signal, Unhandled format_failure] \<and>
   chooseError printf_errors bare_signal None = Inl format_failure \<and>
   chooseError printf_errors \<lparr>code = Some ''ER_DUP_ENTRY'', sqlMessage = None\<rparr>
       (Some [(''conflict'', ''%s already exists'')]) = Inl format_failure \<and>
   chooseError printf_errors \<lparr>code = Some ''ER_DUP_ENTRY'', sqlMessage = None\<rparr> None =
     Inr (RestError Conflict (Some ''Already exists''))"
proof -
  have 1: "chooseError printf_errors barcode_signal None = Inl format_failure"
    by (simp add: chooseError_def barcode_signal_def printf_errors_def)
  have 2: "endpoint_get printf_errors signalling_store ''kit'' ''kitID'' no_options kit_request =
     [LogError barcode_signal, Unhandled format_failure]"
    by (simp add: endpoint_get_def organization_arg_def no_options_def kit_request_def
          getprop_def bindModify_def db_get_def execute_def get_query_def run_modifier_def
          base_query_def from_table_def signalling_store_def handleError_def 1)
  have 3: "chooseError printf_errors bare_signal None = Inl format_failure"
    by (simp add: chooseError_def bare_signal_def printf_errors_def)
  have 4: "chooseError printf_errors \<lparr>code = Some ''ER_DUP_ENTRY'', sqlMessage = None\<rparr>
       (Some [(''conflict'', ''%s already exists'')]) = Inl format_failure"
    by (simp add: chooseError_def chooseMessage_def str_or_def printf_errors_def)
  have 5: "chooseError printf_errors \<lparr>code = Some ''ER_DUP_ENTRY'', sqlMessage = None\<rparr> None =
     Inr (RestError Conflict (Some ''Already exists''))"
    by (simp add: chooseError_def chooseMessage_def str_or_def defaultMessages_def
          printf_errors_def)
  from 1 2 3 4 5 show ?thesis by (intro conjI)
qed

section \<open>Facts about objects, queries and the store\<close>

lemma getprop_setprop:
  "getprop (setprop k v ob) k' = (if k' = k then v else getprop ob k')"
  by (induction ob) (auto simp: getprop_def)

lemma setprop_keys: "set (map fst (setprop k v ob)) = insert k (set (map fst ob))"
  by (induction ob) (force split: if_splits)+

lemma insert_ordered_set: "set (insert_ordered cs a xs) = insert a (set xs)"
  by (induction xs) auto

lemma order_rows_set: "set (order_rows cs xs) = set xs"
  by (induction xs) (auto simp: order_rows_def insert_ordered_set)

lemma insert_ordered_nil: "insert_ordered [] a xs = a # xs"
  by (cases xs) auto

lemma order_rows_nil: "order_rows [] xs = xs"
  by (induction xs) (auto simp: order_rows_def insert_ordered_nil)

lemma join_rows_extends:
  "jr \<in> set (join_rows st jrs j) \<Longrightarrow> \<exists>jr0 \<in> set jrs. \<exists>ext. jr = jr0 @ ext"
  by (cases j) (auto simp: join_rows_def Let_def split: if_splits)

lemma joined_extends:
  "jr \<in> set (foldl (join_rows st) base js) \<Longrightarrow> \<exists>jr0 \<in> set base. \<exists>ext. jr = jr0 @ ext"
proof (induction js arbitrary: base jr)
  case Nil
  then show ?case by auto
next
  case (Cons j js)
  from Cons.prems have "jr \<in> set (foldl (join_rows st) (join_rows st base j) js)" by simp
  then obtain jr1 ext1 where 1: "jr1 \<in> set (join_rows st base j)" and 2: "jr = jr1 @ ext1"
    using Cons.IH by blast
  from 1 obtain jr0 ext0 where "jr0 \<in> set base" "jr1 = jr0 @ ext0"
    using join_rows_extends by blast
  with 2 show ?case by auto
qed

lemma matched_sound:
  assumes "jr \<in> set (matched st q)" and "q_union q = []"
  shows "(\<exists>r \<in> set (tables st (q_table q)). \<exists>ext. jr = (q_table q, r) # ext) \<and>
         list_all (\<lambda>(c, v). resolve jr c = Some v) (q_where q)"
proof -
  let ?base = "map (\<lambda>r. [(q_table q, r)]) (tables st (q_table q))"
  let ?joined = "foldl (join_rows st) ?base (q_join q)"
  let ?kept = "filter (\<lambda>jr. list_all (\<lambda>(c, v). resolve jr c = Some v) (q_where q)) ?joined"
  have "set (matched st q) \<subseteq> set ?kept"
    using assms(2)
    by (auto simp: matched_def Let_def order_rows_set split: option.splits
             dest!: in_set_takeD in_set_dropD)
  with assms have k: "jr \<in> set ?kept" by blast
  then have "jr \<in> set ?joined" by simp
  then obtain jr0 ext where "jr0 \<in> set ?base" "jr = jr0 @ ext"
    using joined_extends by blast
  then have "\<exists>r \<in> set (tables st (q_table q)). \<exists>ext. jr = (q_table q, r) # ext" by auto
  with k show ?thesis by simp
qed

lemma resolve_qualified: "resolve ((t, r) # ext) (t @ CHR ''.'' # c) = map_of r c"
  by simp

lemma apply_op_where: "\<exists>ws. q_where (apply_op q x) = q_where q @ ws"
  by (cases x) auto



lemma chain_where: "\<exists>ws. q_where (chain q ops) = q_where q @ ws"
proof (induction ops arbitrary: q)
  case Nil
  then show ?case by (simp add: chain_def)
next
  case (Cons x ops)
  obtain w1 where 1: "q_where (apply_op q x) = q_where q @ w1" using apply_op_where by blast
  obtain w2 where "q_where (chain (apply_op q x) ops) = q_where (apply_op q x) @ w2"
    using Cons.IH by blast
  with 1 show ?case by (simp add: chain_def)
qed



lemma run_modifier_where: "\<exists>ws. q_where (run_modifier q m) = q_where q @ ws"
  by (cases m) (auto simp: run_modifier_def chain_where)




lemma matched_plain:
  assumes "q_join q = []" "q_search q = None" "q_order q = []" "q_offset q = None"
    and "q_union q = []"
  shows "matched st q =
     (case q_limit q of None \<Rightarrow> id | Some n \<Rightarrow> take n)
       (map (\<lambda>r. [(q_table q, r)])
          (filter (\<lambda>r. list_all (\<lambda>(c, v). resolve [(q_table q, r)] c = Some v) (q_where q))
             (tables st (q_table q))))"
  using assms
  by (simp add: matched_def Let_def order_rows_nil filter_map comp_def split: option.splits)

lemma execute_plain:
  assumes "q_join q = []" "q_search q = None" "q_order q = []" "q_offset q = None" "q_select q = []"
    and "q_union q = []" and "fault st (q_table q) = None"
  shows "execute st q = Inr
     ((case q_limit q of None \<Rightarrow> id | Some n \<Rightarrow> take n)
          (filter (\<lambda>r. list_all (\<lambda>(c, v). resolve [(q_table q, r)] c = Some v) (q_where q))
             (tables st (q_table q))))"
  using assms
  by (simp add: execute_def matched_plain project_def comp_def take_map split: option.splits)

lemma db_get_plain:
  "db_get st t (Some c) v JUndefined None =
     (case fault st t of Some e \<Rightarrow> Inl e
      | None \<Rightarrow> (case filter (\<lambda>r. map_of r c = Some v) (tables st t) of
                   [] \<Rightarrow> Inl notFound | r # rest \<Rightarrow> Inr r))"
proof (cases "fault st t")
  case None
  let ?q = "get_query t (Some c) v JUndefined None"
  have q: "?q = (from_table t)\<lparr>q_where := [(t @ ''.'' @ c, v)]\<rparr>"
    by (simp add: get_query_def run_modifier_def base_query_def buildWhere_def)
  have "execute st ?q = Inr (filter (\<lambda>r. map_of r c = Some v) (tables st t))"
    unfolding q using None
    by (subst execute_plain) (simp_all add: from_table_def)
  then show ?thesis using None by (simp add: db_get_def split: list.splits)
next
  case (Some e)
  then show ?thesis
    by (simp add: db_get_def execute_def get_query_def run_modifier_def base_query_def from_table_def)
qed

lemma resolve_bare:
  "take (Suc (length t)) c \<noteq> t @ ''.'' \<Longrightarrow> resolve [(t, r)] c = map_of r c"
  by (simp split: option.splits)

lemma first_where:
  assumes "take (Suc (length t)) c \<noteq> t @ ''.''"
  shows "execute st (chain (from_table t) [Where c v, Limit 1]) =
     (case fault st t of Some e \<Rightarrow> Inl e
      | None \<Rightarrow> Inr (take 1 (filter (\<lambda>r. map_of r c = Some v) (tables st t))))"
proof (cases "fault st t")
  case None
  let ?q = "chain (from_table t) [Where c v, Limit 1]"
  have q: "?q = (from_table t)\<lparr>q_where := [(c, v)], q_limit := Some 1\<rparr>"
    by (simp add: chain_def from_table_def)
  show ?thesis unfolding q using None
    by (subst execute_plain) (simp_all add: from_table_def resolve_bare [OF assms] del: resolve.simps)
next
  case (Some e)
  then show ?thesis by (simp add: execute_def chain_def from_table_def)
qed

lemma stored_tokens_eq:
  "stored_tokens st uid =
     (case fault st ''refreshToken'' of Some e \<Rightarrow> Inl e
      | None \<Rightarrow> Inr (map (\<lambda>r. getprop r ''refreshToken'')
                      (take 1 (filter (\<lambda>r. map_of r ''userID'' = Some uid) (tables st ''refreshToken'')))))"
  unfolding stored_tokens_def
  by (subst first_where) (simp_all split: option.splits)

lemma first_user_eq:
  "first_user st uid =
     (case fault st ''user'' of Some e \<Rightarrow> Inl e
      | None \<Rightarrow> (case filter (\<lambda>r. map_of r ''userID'' = Some uid) (tables st ''user'') of
                   [] \<Rightarrow> Inr None | u # rest \<Rightarrow> Inr (Some u)))"
  unfolding first_user_def
  by (subst first_where) (simp_all split: option.splits list.splits)

section \<open>Deleting through the endpoint\<close>

lemma base_holds:
  "list_all (\<lambda>(k, x). resolve [(t, r)] k = Some x) (buildWhere t (Some c) v org) =
     ((truthy org \<longrightarrow> map_of r ''organizationID'' = Some org) \<and> map_of r c = Some v)"
  by (simp add: buildWhere_def)

lemma targets_base:
  "targets st (get_query t (Some c) v org None) =
     filter (\<lambda>r. (truthy org \<longrightarrow> map_of r ''organizationID'' = Some org) \<and> map_of r c = Some v)
       (tables st t)"
proof -
  let ?q = "get_query t (Some c) v org None"
  have q: "?q = (from_table t)\<lparr>q_where := buildWhere t (Some c) v org\<rparr>"
    by (simp add: get_query_def run_modifier_def base_query_def)
  have "matched st ?q = map (\<lambda>r. [(t, r)])
      (filter (\<lambda>r. list_all (\<lambda>(k, x). resolve [(t, r)] k = Some x) (buildWhere t (Some c) v org))
         (tables st t))"
    unfolding q by (subst matched_plain) (simp_all add: from_table_def)
  then show ?thesis
    by (simp add: targets_def base_holds comp_def base_row_def del: resolve.simps)
qed

lemma filter_mem_filter:
  "filter (\<lambda>r. r \<in> set (filter P xs)) xs = filter P xs"
  by (rule filter_cong) auto

lemma filter_not_mem_filter:
  "filter (\<lambda>r. r \<notin> set (filter P xs)) xs = filter (\<lambda>r. \<not> P r) xs"
  by (rule filter_cong) auto

lemma db_delete_plain:
  "db_delete st t c v org None =
     (case fault st t of Some e \<Rightarrow> (st, Inl e)
      | None \<Rightarrow>
         (st\<lparr>tables := (tables st)(t :=
              filter (\<lambda>r. \<not> ((truthy org \<longrightarrow> map_of r ''organizationID'' = Some org) \<and>
                                map_of r c = Some v)) (tables st t))\<rparr>,
          Inr (length (filter (\<lambda>r. (truthy org \<longrightarrow> map_of r ''organizationID'' = Some org) \<and>
                                map_of r c = Some v) (tables st t)))))"
  unfolding db_delete_def targets_base Let_def filter_mem_filter filter_not_mem_filter
  by (rule refl)

lemma db_delete_again:
  assumes "db_delete st t c v org None = (st', Inr n)"
  shows "db_delete st' t c v org None = (st', Inr 0)"
proof (cases "fault st t")
  case None
  let ?P = "\<lambda>r. (truthy org \<longrightarrow> map_of r ''organizationID'' = Some org) \<and> map_of r c = Some v"
  from assms None have st': "st' = st\<lparr>tables := (tables st)(t := filter (\<lambda>r. \<not> ?P r) (tables st t))\<rparr>"
    by (simp add: db_delete_plain)
  have f: "fault st' t = None" using None by (simp add: st')
  have rows: "tables st' t = filter (\<lambda>r. \<not> ?P r) (tables st t)" by (simp add: st')
  have 1: "filter ?P (tables st' t) = []" unfolding rows by (auto simp: filter_empty_conv)
  have 2: "filter (\<lambda>r. \<not> ?P r) (tables st' t) = tables st' t" unfolding rows by simp
  have 3: "st'\<lparr>tables := (tables st')(t := tables st' t)\<rparr> = st'" by simp
  have "db_delete st' t c v org None =
      (st'\<lparr>tables := (tables st')(t := filter (\<lambda>r. \<not> ?P r) (tables st' t))\<rparr>,
       Inr (length (filter ?P (tables st' t))))"
    by (simp only: db_delete_plain f option.case)
  then show ?thesis
    by (simp only: 1 2 3 list.size)
next
  case (Some e)
  with assms show ?thesis by (simp add: db_delete_plain)
qed

text \<open>
  Claim C5. When the gateway reports more than zero affected rows, the handler of
  \<open>delete\<close> answers with the message (the configured text, or ``Deleted'') and the id
  that the request addressed; when it reports zero rows, it answers with an empty 204.
  With no modifier configured, the same request made again after a delete finds nothing to
  remove: it leaves the store as it is and is answered with the empty 204.
\<close>

theorem delete_reply_by_count:
  assumes "organization_arg (hasOrganizationID opts) req = Inr org"
    and "db_delete st t c (getprop (params req) c) org (bindModify (modify opts) req) = (st', Inr n)"
  shows "\<exists>m. chooseMessage ''delete'' (messages opts) = Some m \<and>
           (map_of (case messages opts of None \<Rightarrow> [] | Some ms \<Rightarrow> ms) ''delete'' \<in> {None, Some []}
              \<longrightarrow> m = ''Deleted'') \<and>
           (\<forall>x. map_of (case messages opts of None \<Rightarrow> [] | Some ms \<Rightarrow> ms) ''delete'' = Some x \<and> x \<noteq> []
              \<longrightarrow> m = x) \<and>
           (0 < n \<longrightarrow> endpoint_delete errors st t c opts req =
              (st', [Send 200 (Object [(''message'', JStr m), (''id'', getprop (params req) c)]),
                     Next Proceed])) \<and>
           (n = 0 \<longrightarrow> endpoint_delete errors st t c opts req = (st', [Send 204 NoContent, Next Proceed])) \<and>
           (modify opts = None \<longrightarrow>
              endpoint_delete errors st' t c opts req = (st', [Send 204 NoContent, Next Proceed]))"
proof -
  let ?cfg = "case messages opts of None \<Rightarrow> [] | Some ms \<Rightarrow> ms"
  obtain m where m: "chooseMessage ''delete'' (messages opts) = Some m"
    and d: "map_of ?cfg ''delete'' \<in> {None, Some []} \<longrightarrow> m = ''Deleted''"
    and c: "\<forall>x. map_of ?cfg ''delete'' = Some x \<and> x \<noteq> [] \<longrightarrow> m = x"
  proof (cases "map_of ?cfg ''delete'' \<in> {None, Some []}")
    case True
    then have "chooseMessage ''delete'' (messages opts) = Some ''Deleted''"
      by (simp only: chooseMessage_default default_texts)
    with True that show ?thesis by auto
  next
    case False
    then obtain x where x: "map_of ?cfg ''delete'' = Some x" "x \<noteq> []" by auto
    then have "chooseMessage ''delete'' (messages opts) = Some x"
      by (rule chooseMessage_custom)
    with x False that show ?thesis by auto
  qed
  have first: "endpoint_delete errors st t c opts req = (st', delete_reply c (messages opts) req n)"
    using assms by (simp add: endpoint_delete_def)
  have again: "endpoint_delete errors st' t c opts req = (st', delete_reply c (messages opts) req 0)"
    if "modify opts = None"
  proof -
    from that assms(2) have "db_delete st t c (getprop (params req) c) org None = (st', Inr n)"
      by (simp add: bindModify_def)
    then have "db_delete st' t c (getprop (params req) c) org None = (st', Inr 0)"
      by (rule db_delete_again)
    with that assms(1) show ?thesis by (simp add: endpoint_delete_def bindModify_def)
  qed
  from m first again have
    "0 < n \<longrightarrow> endpoint_delete errors st t c opts req =
        (st', [Send 200 (Object [(''message'', JStr m), (''id'', getprop (params req) c)]),
               Next Proceed])"
    "n = 0 \<longrightarrow> endpoint_delete errors st t c opts req = (st', [Send 204 NoContent, Next Proceed])"
    "modify opts = None \<longrightarrow>
        endpoint_delete errors st' t c opts req = (st', [Send 204 NoContent, Next Proceed])"
    by (simp_all add: delete_reply_def)
  with m d c show ?thesis
    by (intro exI [of _ m] conjI) assumption+
qed

theorem delete_reply_by_count_witness:
  "endpoint_delete printf_errors kit_store ''kit'' ''kitID'' no_options kit_request =
     (kit_store\<lparr>tables := (tables kit_store)(''kit'' :=
          [[(''kitID'', JNum 2), (''name'', JStr ''Audio kit''), (''organizationID'', JNum 7)]])\<rparr>,
      [Send 200 (Object [(''message'', JStr ''Deleted''), (''id'', JNum 1)]), Next Proceed]) \<and>
   endpoint_delete printf_errors
     (kit_store\<lparr>tables := (tables kit_store)(''kit'' :=
          [[(''kitID'', JNum 2), (''name'', JStr ''Audio kit''), (''organizationID'', JNum 7)]])\<rparr>)
     ''kit'' ''kitID'' no_options kit_request =
     (kit_store\<lparr>tables := (tables kit_store)(''kit'' :=
          [[(''kitID'', JNum 2), (''name'', JStr ''Audio kit''), (''organizationID'', JNum 7)]])\<rparr>,
      [Send 204 NoContent, Next Proceed])"
proof -
  let ?st' = "kit_store\<lparr>tables := (tables kit_store)(''kit'' :=
          [[(''kitID'', JNum 2), (''name'', JStr ''Audio kit''), (''organizationID'', JNum 7)]])\<rparr>"
  have h1: "organization_arg (hasOrganizationID no_options) kit_request = Inr (JNum 94)"
    by (simp add: organization_arg_def no_options_def kit_request_def getprop_def)
  have h2: "db_delete kit_store ''kit'' ''kitID'' (getprop (params kit_request) ''kitID'') (JNum 94)
              (bindModify (modify no_options) kit_request) = (?st', Inr 1)"
    by (simp add: db_delete_plain bindModify_def no_options_def kit_request_def getprop_def
          kit_store_def)
  have none: "messages no_options = None" "modify no_options = None"
    by (simp_all add: no_options_def)
  have id: "getprop (params kit_request) ''kitID'' = JNum 1"
    by (simp add: kit_request_def getprop_def)
  from delete_reply_by_count [OF h1 h2, where errors = printf_errors] show ?thesis
    by (auto simp: none id)
qed


section \<open>The organization of a created row\<close>

lemma map_of_setprop: "map_of (setprop k v ob) k = Some v"
  by (induction ob) auto

lemma getprop_setprop_other: "k' \<noteq> k \<Longrightarrow> getprop (setprop k v ob) k' = getprop ob k'"
  by (simp add: getprop_setprop)

lemma db_create_appends:
  assumes "fault st t = None"
  shows "\<exists>row. tables (fst (db_create st t c payload m rm)) t = tables st t @ [row] \<and>
           (\<forall>k. Some k \<noteq> c \<longrightarrow> getprop row k = getprop payload k) \<and>
           (\<forall>k v. c = Some k \<and> map_of payload k = Some v \<longrightarrow> getprop row k = v)"
proof (cases c)
  case None
  with assms have "tables (fst (db_create st t c payload m rm)) t = tables st t @ [payload]"
    by (simp add: db_create_def insert_row_def Let_def)
  with None show ?thesis by simp
next
  case (Some c')
  let ?key = "case map_of payload c' of None \<Rightarrow> JNum (int (Suc (serial st t))) | Some v \<Rightarrow> v"
  from assms Some have "tables (fst (db_create st t c payload m rm)) t =
      tables st t @ [setprop c' ?key payload]"
    by (simp add: db_create_def insert_row_def Let_def)
  moreover have "\<forall>k. Some k \<noteq> c \<longrightarrow> getprop (setprop c' ?key payload) k = getprop payload k"
    using Some by (auto simp: getprop_setprop)
  moreover have "\<forall>k v. c = Some k \<and> map_of payload k = Some v \<longrightarrow>
      getprop (setprop c' ?key payload) k = v"
    using Some by (auto simp: getprop_setprop)
  ultimately show ?thesis by blast
qed

lemma truthy_getprop: "truthy (getprop ob k) \<Longrightarrow> map_of ob k = Some (getprop ob k)"
  by (cases "map_of ob k") (simp_all add: getprop_def)

text \<open>
  Claim C10. The handler of \<open>create\<close> makes the gateway insert one row. With tenant
  scoping on and a user attached, when the \<open>organizationID\<close> of the body is falsy (absent,
  \<open>null\<close>, \<open>0\<close> or the empty string), the row inserted carries the \<open>organizationID\<close>
  of the user, and the other columns of the body as they are. With no user attached, or
  with a truthy \<open>organizationID\<close> in the body, the row carries the columns of the body
  unchanged, among them that \<open>organizationID\<close>. (The column of the key is the gateway's:
  it holds the value of the body, or the one that the store assigns.)
\<close>

theorem create_backfill:
  assumes "fault st t = None"
  shows "\<exists>row. tables (fst (endpoint_create errors st t c opts req)) t = tables st t @ [row] \<and>
           (hasOrganizationID opts \<and> user req = Some u \<and>
            \<not> truthy (getprop (body req) ''organizationID'') \<longrightarrow>
              getprop row ''organizationID'' = getprop u ''organizationID'' \<and>
              (\<forall>k. k \<noteq> ''organizationID'' \<and> Some k \<noteq> c \<longrightarrow>
                 getprop row k = getprop (body req) k)) \<and>
           (user req = None \<or> truthy (getprop (body req) ''organizationID'') \<longrightarrow>
              (\<forall>k. Some k \<noteq> c \<longrightarrow> getprop row k = getprop (body req) k)) \<and>
           (truthy (getprop (body req) ''organizationID'') \<longrightarrow>
              getprop row ''organizationID'' = getprop (body req) ''organizationID'')"
proof -
  let ?payload = "create_body (hasOrganizationID opts) req"
  have same: "fst (endpoint_create errors st t c opts req) =
      fst (db_create st t c ?payload (bindModify (modify opts) req) (bindModify (resModify opts) req))"
    by (simp add: endpoint_create_def split: prod.splits sum.splits)
  from db_create_appends [OF assms] obtain row
    where all: "tables (fst (db_create st t c ?payload (bindModify (modify opts) req)
                     (bindModify (resModify opts) req))) t = tables st t @ [row] \<and>
           (\<forall>k. Some k \<noteq> c \<longrightarrow> getprop row k = getprop ?payload k) \<and>
           (\<forall>k v. c = Some k \<and> map_of ?payload k = Some v \<longrightarrow> getprop row k = v)" ..
  note rows = all [THEN conjunct1]
  note others = all [THEN conjunct2, THEN conjunct1, rule_format]
  note key = all [THEN conjunct2, THEN conjunct2, rule_format]
  have org: "getprop row ''organizationID'' = getprop ?payload ''organizationID''"
    if m: "map_of ?payload ''organizationID'' = Some (getprop ?payload ''organizationID'')"
  proof (cases "c = Some ''organizationID''")
    case True
    show ?thesis by (rule key [OF conjI [OF True m]])
  next
    case False
    then have "Some ''organizationID'' \<noteq> c" by simp
    then show ?thesis by (rule others)
  qed
  have fill: "getprop row ''organizationID'' = getprop u ''organizationID'' \<and>
      (\<forall>k. k \<noteq> ''organizationID'' \<and> Some k \<noteq> c \<longrightarrow> getprop row k = getprop (body req) k)"
    if h: "hasOrganizationID opts \<and> user req = Some u \<and>
           \<not> truthy (getprop (body req) ''organizationID'')"
  proof -
    from h have p: "?payload = setprop ''organizationID'' (getprop u ''organizationID'') (body req)"
      by (simp add: create_body_def)
    have "map_of ?payload ''organizationID'' = Some (getprop ?payload ''organizationID'')"
      unfolding p by (simp add: map_of_setprop getprop_setprop)
    then have "getprop row ''organizationID'' = getprop ?payload ''organizationID''" by (rule org)
    then have 1: "getprop row ''organizationID'' = getprop u ''organizationID''"
      unfolding p by (simp add: getprop_setprop)
    have 2: "getprop row k = getprop (body req) k" if k: "k \<noteq> ''organizationID'' \<and> Some k \<noteq> c" for k
    proof -
      from k have "Some k \<noteq> c" by simp
      then have "getprop row k = getprop ?payload k" by (rule others)
      with k show ?thesis unfolding p by (simp add: getprop_setprop)
    qed
    from 2 have "\<forall>k. k \<noteq> ''organizationID'' \<and> Some k \<noteq> c \<longrightarrow> getprop row k = getprop (body req) k"
      by (intro allI impI)
    with 1 show ?thesis by (rule conjI)
  qed
  have keep: "?payload = body req"
    if "user req = None \<or> truthy (getprop (body req) ''organizationID'')"
    using that by (auto simp: create_body_def)
  have left: "\<forall>k. Some k \<noteq> c \<longrightarrow> getprop row k = getprop (body req) k"
    if "user req = None \<or> truthy (getprop (body req) ''organizationID'')"
    using others keep [OF that] by simp
  have own: "getprop row ''organizationID'' = getprop (body req) ''organizationID''"
    if "truthy (getprop (body req) ''organizationID'')"
  proof -
    from that have k: "?payload = body req" by (simp add: keep)
    from that have "map_of (body req) ''organizationID'' = Some (getprop (body req) ''organizationID'')"
      by (rule truthy_getprop)
    then have "getprop row ''organizationID'' = getprop ?payload ''organizationID''"
      by (intro org) (simp add: k)
    then show ?thesis by (simp add: k)
  qed
  have c1: "tables (fst (endpoint_create errors st t c opts req)) t = tables st t @ [row]"
    unfolding same by (rule rows)
  have c2: "hasOrganizationID opts \<and> user req = Some u \<and>
            \<not> truthy (getprop (body req) ''organizationID'') \<longrightarrow>
              getprop row ''organizationID'' = getprop u ''organizationID'' \<and>
              (\<forall>k. k \<noteq> ''organizationID'' \<and> Some k \<noteq> c \<longrightarrow>
                 getprop row k = getprop (body req) k)"
    by (rule impI) (rule fill)
  have c3: "user req = None \<or> truthy (getprop (body req) ''organizationID'') \<longrightarrow>
              (\<forall>k. Some k \<noteq> c \<longrightarrow> getprop row k = getprop (body req) k)"
    by (rule impI) (rule left)
  have c4: "truthy (getprop (body req) ''organizationID'') \<longrightarrow>
              getprop row ''organizationID'' = getprop (body req) ''organizationID''"
    by (rule impI) (rule own)
  from c1 c2 c3 c4 show ?thesis by (intro exI [of _ row] conjI)
qed

theorem create_backfill_witness:
  "(\<exists>row. tables (fst (endpoint_create printf_errors kit_store ''kit'' (Some ''kitID'') no_options
                        (creating [(''name'', JStr ''Tripods'')]))) ''kit''
            = tables kit_store ''kit'' @ [row] \<and>
          getprop row ''organizationID'' = JNum 94 \<and> getprop row ''name'' = JStr ''Tripods'') \<and>
   (\<exists>row. tables (fst (endpoint_create printf_errors kit_store ''kit'' (Some ''kitID'') no_options
                        (creating [(''organizationID'', JNull)]))) ''kit''
            = tables kit_store ''kit'' @ [row] \<and>
          getprop row ''organizationID'' = JNum 94) \<and>
   (\<exists>row. tables (fst (endpoint_create printf_errors kit_store ''kit'' (Some ''kitID'') no_options
                        (creating [(''organizationID'', JNum 0)]))) ''kit''
            = tables kit_store ''kit'' @ [row] \<and>
          getprop row ''organizationID'' = JNum 94) \<and>
   (\<exists>row. tables (fst (endpoint_create printf_errors kit_store ''kit'' (Some ''kitID'') no_options
                        (creating [(''organizationID'', JStr [])]))) ''kit''
            = tables kit_store ''kit'' @ [row] \<and>
          getprop row ''organizationID'' = JNum 94) \<and>
   (\<exists>row. tables (fst (endpoint_create printf_errors kit_store ''kit'' (Some ''kitID'') no_options
                        (creating [(''organizationID'', JNum 7)]))) ''kit''
            = tables kit_store ''kit'' @ [row] \<and>
          getprop row ''organizationID'' = JNum 7) \<and>
   (\<exists>row. tables (fst (endpoint_create printf_errors kit_store ''kit'' (Some ''kitID'') no_options
                        (anonymous_creating [(''name'', JStr ''Tripods'')]))) ''kit''
            = tables kit_store ''kit'' @ [row] \<and>
          getprop row ''organizationID'' = JUndefined \<and> getprop row ''name'' = JStr ''Tripods'')"
proof -
  let ?u = "[(''userID'', JNum 5), (''organizationID'', JNum 94), (''roleID'', JNum 2)]"
  have f: "fault kit_store ''kit'' = None" by (simp add: kit_store_def)
  have h: "hasOrganizationID no_options" by (simp add: no_options_def)
  have u: "user (creating b) = Some ?u" "body (creating b) = b" for b
    by (simp_all add: creating_def kit_request_def)
  have a: "user (anonymous_creating b) = None" "body (anonymous_creating b) = b" for b
    by (simp_all add: anonymous_creating_def)
  have org: "getprop ?u ''organizationID'' = JNum 94" by (simp add: getprop_def)
  have name: "getprop [(''name'', JStr ''Tripods'')] ''name'' = JStr ''Tripods''"
      "getprop [(''name'', JStr ''Tripods'')] ''organizationID'' = JUndefined"
      "getprop [(''organizationID'', JNum 7)] ''organizationID'' = JNum 7"
    by (simp_all add: getprop_def)
  have fill: "\<exists>row. tables (fst (endpoint_create printf_errors kit_store ''kit'' (Some ''kitID'')
                        no_options (creating b))) ''kit'' = tables kit_store ''kit'' @ [row] \<and>
          getprop row ''organizationID'' = JNum 94 \<and> getprop row ''name'' = getprop b ''name''"
    if falsy: "\<not> truthy (getprop b ''organizationID'')" for b
  proof -
    from create_backfill [OF f, where errors = printf_errors and c = "Some ''kitID''"
        and opts = no_options and req = "creating b" and u = ?u]
    obtain row where all: "tables (fst (endpoint_create printf_errors kit_store ''kit''
          (Some ''kitID'') no_options (creating b))) ''kit'' = tables kit_store ''kit'' @ [row] \<and>
        (hasOrganizationID no_options \<and> user (creating b) = Some ?u \<and>
            \<not> truthy (getprop (body (creating b)) ''organizationID'') \<longrightarrow>
              getprop row ''organizationID'' = getprop ?u ''organizationID'' \<and>
              (\<forall>k. k \<noteq> ''organizationID'' \<and> Some k \<noteq> Some ''kitID'' \<longrightarrow>
                 getprop row k = getprop (body (creating b)) k)) \<and>
        (user (creating b) = None \<or> truthy (getprop (body (creating b)) ''organizationID'') \<longrightarrow>
              (\<forall>k. Some k \<noteq> Some ''kitID'' \<longrightarrow> getprop row k = getprop (body (creating b)) k)) \<and>
        (truthy (getprop (body (creating b)) ''organizationID'') \<longrightarrow>
              getprop row ''organizationID'' = getprop (body (creating b)) ''organizationID'')" ..
    note r = all [THEN conjunct1]
    have pre: "hasOrganizationID no_options \<and> user (creating b) = Some ?u \<and>
            \<not> truthy (getprop (body (creating b)) ''organizationID'')"
      using h falsy by (simp add: u)
    note i = all [THEN conjunct2, THEN conjunct1, rule_format, OF pre]
    have 1: "getprop row ''organizationID'' = JNum 94"
      using i [THEN conjunct1] by (simp only: org)
    have "''name'' \<noteq> ''organizationID'' \<and> Some ''name'' \<noteq> Some ''kitID''" by simp
    then have "getprop row ''name'' = getprop (body (creating b)) ''name''"
      by (rule i [THEN conjunct2, rule_format])
    then have 2: "getprop row ''name'' = getprop b ''name''" by (simp only: u)
    from r 1 2 show ?thesis by (intro exI [of _ row] conjI)
  qed
  have falsy: "\<not> truthy (getprop [(''name'', JStr ''Tripods'')] ''organizationID'')"
      "\<not> truthy (getprop [(''organizationID'', JNull)] ''organizationID'')"
      "\<not> truthy (getprop [(''organizationID'', JNum 0)] ''organizationID'')"
      "\<not> truthy (getprop [(''organizationID'', JStr [])] ''organizationID'')"
    by (simp_all add: getprop_def)
  have 1: "\<exists>row. tables (fst (endpoint_create printf_errors kit_store ''kit'' (Some ''kitID'') no_options
                        (creating [(''name'', JStr ''Tripods'')]))) ''kit''
            = tables kit_store ''kit'' @ [row] \<and>
          getprop row ''organizationID'' = JNum 94 \<and> getprop row ''name'' = JStr ''Tripods''"
    using fill [OF falsy(1)] by (simp only: name)
  have 2: "\<exists>row. tables (fst (endpoint_create printf_errors kit_store ''kit'' (Some ''kitID'') no_options
                        (creating [(''organizationID'', JNull)]))) ''kit''
            = tables kit_store ''kit'' @ [row] \<and>
          getprop row ''organizationID'' = JNum 94"
    using fill [OF falsy(2)] by (elim exE conjE) (intro exI conjI)
  have 3: "\<exists>row. tables (fst (endpoint_create printf_errors kit_store ''kit'' (Some ''kitID'') no_options
                        (creating [(''organizationID'', JNum 0)]))) ''kit''
            = tables kit_store ''kit'' @ [row] \<and>
          getprop row ''organizationID'' = JNum 94"
    using fill [OF falsy(3)] by (elim exE conjE) (intro exI conjI)
  have 4: "\<exists>row. tables (fst (endpoint_create printf_errors kit_store ''kit'' (Some ''kitID'') no_options
                        (creating [(''organizationID'', JStr [])]))) ''kit''
            = tables kit_store ''kit'' @ [row] \<and>
          getprop row ''organizationID'' = JNum 94"
    using fill [OF falsy(4)] by (elim exE conjE) (intro exI conjI)
  have 5: "\<exists>row. tables (fst (endpoint_create printf_errors kit_store ''kit'' (Some ''kitID'') no_options
                        (creating [(''organizationID'', JNum 7)]))) ''kit''
            = tables kit_store ''kit'' @ [row] \<and>
          getprop row ''organizationID'' = JNum 7"
  proof -
    let ?req = "creating [(''organizationID'', JNum 7)]"
    from create_backfill [OF f, where errors = printf_errors and c = "Some ''kitID''"
        and opts = no_options and req = ?req and u = ?u]
    obtain row where all: "tables (fst (endpoint_create printf_errors kit_store ''kit''
          (Some ''kitID'') no_options ?req)) ''kit'' = tables kit_store ''kit'' @ [row] \<and>
        (hasOrganizationID no_options \<and> user ?req = Some ?u \<and>
            \<not> truthy (getprop (body ?req) ''organizationID'') \<longrightarrow>
              getprop row ''organizationID'' = getprop ?u ''organizationID'' \<and>
              (\<forall>k. k \<noteq> ''organizationID'' \<and> Some k \<noteq> Some ''kitID'' \<longrightarrow>
                 getprop row k = getprop (body ?req) k)) \<and>
        (user ?req = None \<or> truthy (getprop (body ?req) ''organizationID'') \<longrightarrow>
              (\<forall>k. Some k \<noteq> Some ''kitID'' \<longrightarrow> getprop row k = getprop (body ?req) k)) \<and>
        (truthy (getprop (body ?req) ''organizationID'') \<longrightarrow>
              getprop row ''organizationID'' = getprop (body ?req) ''organizationID'')" ..
    note r = all [THEN conjunct1]
    have "truthy (getprop (body ?req) ''organizationID'')" by (simp add: u name)
    then have "getprop row ''organizationID'' = getprop (body ?req) ''organizationID''"
      by (rule all [THEN conjunct2, THEN conjunct2, THEN conjunct2, rule_format])
    then have "getprop row ''organizationID'' = JNum 7" by (simp only: u name)
    with r show ?thesis by (intro exI [of _ row] conjI)
  qed
  have 6: "\<exists>row. tables (fst (endpoint_create printf_errors kit_store ''kit'' (Some ''kitID'') no_options
                        (anonymous_creating [(''name'', JStr ''Tripods'')]))) ''kit''
            = tables kit_store ''kit'' @ [row] \<and>
          getprop row ''organizationID'' = JUndefined \<and> getprop row ''name'' = JStr ''Tripods''"
  proof -
    let ?req = "anonymous_creating [(''name'', JStr ''Tripods'')]"
    from create_backfill [OF f, where errors = printf_errors and c = "Some ''kitID''"
        and opts = no_options and req = ?req and u = ?u]
    obtain row where all: "tables (fst (endpoint_create printf_errors kit_store ''kit''
          (Some ''kitID'') no_options ?req)) ''kit'' = tables kit_store ''kit'' @ [row] \<and>
        (hasOrganizationID no_options \<and> user ?req = Some ?u \<and>
            \<not> truthy (getprop (body ?req) ''organizationID'') \<longrightarrow>
              getprop row ''organizationID'' = getprop ?u ''organizationID'' \<and>
              (\<forall>k. k \<noteq> ''organizationID'' \<and> Some k \<noteq> Some ''kitID'' \<longrightarrow>
                 getprop row k = getprop (body ?req) k)) \<and>
        (user ?req = None \<or> truthy (getprop (body ?req) ''organizationID'') \<longrightarrow>
              (\<forall>k. Some k \<noteq> Some ''kitID'' \<longrightarrow> getprop row k = getprop (body ?req) k)) \<and>
        (truthy (getprop (body ?req) ''organizationID'') \<longrightarrow>
              getprop row ''organizationID'' = getprop (body ?req) ''organizationID'')" ..
    note r = all [THEN conjunct1]
    have n: "user ?req = None \<or> truthy (getprop (body ?req) ''organizationID'')"
      by (simp add: a)
    note l = all [THEN conjunct2, THEN conjunct2, THEN conjunct1, rule_format, OF n]
    have "Some ''organizationID'' \<noteq> Some ''kitID''" by simp
    then have "getprop row ''organizationID'' = getprop (body ?req) ''organizationID''" by (rule l)
    then have 1: "getprop row ''organizationID'' = JUndefined" by (simp only: a name)
    have "Some ''name'' \<noteq> Some ''kitID''" by simp
    then have "getprop row ''name'' = getprop (body ?req) ''name''" by (rule l)
    then have 2: "getprop row ''name'' = JStr ''Tripods''" by (simp only: a name)
    from r 1 2 show ?thesis by (intro exI [of _ row] conjI)
  qed
  from 1 2 3 4 5 6 show ?thesis by (intro conjI)
qed

section \<open>Authentication failures\<close>

lemma db_get_unknown:
  assumes "\<forall>r \<in> set (tables st t). map_of r c \<noteq> Some v"
  shows "\<exists>e. db_get st t (Some c) v JUndefined None = Inl e"
proof -
  from assms have "filter (\<lambda>r. map_of r c = Some v) (tables st t) = []"
    by (simp add: filter_empty_conv)
  then show ?thesis by (simp add: db_get_plain split: option.splits)
qed

text \<open>
  Claim C3. Of two calls of \<open>authenticate\<close> that carry an email and a password, one
  with an email that no user row has, the other with the email of a user whose stored hash
  the password does not match: both forward an \<open>Unauthorized\<close> error with the same
  message and leave the store as it is, so what the client sees is the same.
\<close>

theorem authenticate_failures_indistinguishable:
  assumes "truthy (getprop (body req1) ''email'')" and "truthy (getprop (body req1) ''password'')"
    and "truthy (getprop (body req2) ''email'')" and "truthy (getprop (body req2) ''password'')"
    and unknown: "\<forall>r \<in> set (tables st1 ''user''). map_of r ''email'' \<noteq> Some (getprop (body req1) ''email'')"
    and known: "db_get st2 ''user'' (Some ''email'') (getprop (body req2) ''email'') JUndefined None = Inr u"
    and wrong: "compare_js cr2 (getprop (body req2) ''password'') (getprop u ''password'') \<noteq> Inr True"
  shows "authenticate cr1 st1 req1 =
           (st1, [Next (Classified (RestError Unauthorized
                    (Some ''Email and password combination is incorrect'')))]) \<and>
         authenticate cr2 st2 req2 =
           (st2, [Next (Classified (RestError Unauthorized
                    (Some ''Email and password combination is incorrect'')))]) \<and>
         snd (authenticate cr1 st1 req1) = snd (authenticate cr2 st2 req2)"
proof -
  obtain e where "db_get st1 ''user'' (Some ''email'') (getprop (body req1) ''email'') JUndefined None = Inl e"
    using db_get_unknown [OF unknown] by blast
  with assms(1,2) have 1: "authenticate cr1 st1 req1 =
     (st1, [Next (Classified (RestError Unauthorized
              (Some ''Email and password combination is incorrect'')))])"
    by (simp add: authenticate_def unauthorized_def)
  from wrong have "(\<exists>e. compare_js cr2 (getprop (body req2) ''password'') (getprop u ''password'') = Inl e)
      \<or> compare_js cr2 (getprop (body req2) ''password'') (getprop u ''password'') = Inr False"
    by (cases "compare_js cr2 (getprop (body req2) ''password'') (getprop u ''password'')") auto
  with assms(3,4) known have 2: "authenticate cr2 st2 req2 =
     (st2, [Next (Classified (RestError Unauthorized
              (Some ''Email and password combination is incorrect'')))])"
    by (auto simp: authenticate_def unauthorized_def)
  from 1 2 show ?thesis by simp
qed

theorem authenticate_failures_indistinguishable_witness:
  "authenticate demo_crypto auth_store (login ''nobody@example.org'' ''secret'') =
     (auth_store, [Next (Classified (RestError Unauthorized
                     (Some ''Email and password combination is incorrect'')))]) \<and>
   authenticate demo_crypto auth_store (login ''ada@example.org'' ''guess'') =
     (auth_store, [Next (Classified (RestError Unauthorized
                     (Some ''Email and password combination is incorrect'')))])"
proof -
  let ?r1 = "login ''nobody@example.org'' ''secret''"
  let ?r2 = "login ''ada@example.org'' ''guess''"
  let ?ada = "[(''userID'', JNum 1), (''email'', JStr ''ada@example.org''),
               (''password'', JStr ''$2b$secret''), (''organizationID'', JNum 94),
               (''roleID'', JNum 2)]"
  have t: "truthy (getprop (body ?r1) ''email'')" "truthy (getprop (body ?r1) ''password'')"
      "truthy (getprop (body ?r2) ''email'')" "truthy (getprop (body ?r2) ''password'')"
    by (simp_all add: login_def getprop_def)
  have u: "\<forall>r \<in> set (tables auth_store ''user''). map_of r ''email'' \<noteq> Some (getprop (body ?r1) ''email'')"
    by (simp add: auth_store_def login_def getprop_def)
  have k: "db_get auth_store ''user'' (Some ''email'') (getprop (body ?r2) ''email'') JUndefined None = Inr ?ada"
    by (simp add: db_get_plain auth_store_def login_def getprop_def)
  have w: "compare_js demo_crypto (getprop (body ?r2) ''password'') (getprop ?ada ''password'') \<noteq> Inr True"
    by (simp add: compare_js_def demo_crypto_def login_def getprop_def)
  from authenticate_failures_indistinguishable [OF t u k w, of demo_crypto] show ?thesis by blast
qed

text \<open>
  Claim C8. Once email and password have passed the presence check, every error inside
  \<open>authenticate\<close> (the user cannot be fetched, because there is none or because the store
  fails; the comparison is rejected; the token cannot be signed; the refresh token cannot be
  stored) ends in the same \<open>Unauthorized\<close> error and an unchanged store. Whatever
  happens, the handler does nothing but send the successful answer or forward that error:
  never an internal server error, never the raw error.
\<close>

theorem authenticate_errors_unauthorized:
  assumes "truthy (getprop (body req) ''email'')" and "truthy (getprop (body req) ''password'')"
  shows "((\<exists>e. db_get st ''user'' (Some ''email'') (getprop (body req) ''email'') JUndefined None = Inl e) \<or>
          (\<exists>u. db_get st ''user'' (Some ''email'') (getprop (body req) ''email'') JUndefined None = Inr u \<and>
             ((\<exists>e. compare_js cr (getprop (body req) ''password'') (getprop u ''password'') = Inl e) \<or>
              compare_js cr (getprop (body req) ''password'') (getprop u ''password'') = Inr True \<and>
              ((\<exists>e. makeToken cr (getprop u ''userID'') (getprop u ''organizationID'')
                       (getprop u ''roleID'') = Inl e) \<or>
               (\<exists>e. fault st ''refreshToken'' = Some e))))
         \<longrightarrow> authenticate cr st req =
               (st, [Next (Classified (RestError Unauthorized
                       (Some ''Email and password combination is incorrect'')))])) \<and>
         (\<forall>x \<in> set (snd (authenticate cr st req)).
            (\<exists>content. x = Send 200 content) \<or>
            x = Next (Classified (RestError Unauthorized
                       (Some ''Email and password combination is incorrect''))))"
  using assms
  by (auto simp: authenticate_def unauthorized_def insert_row_def Let_def
           split: sum.splits option.splits)

theorem authenticate_errors_unauthorized_witness:
  "authenticate demo_crypto
     (auth_store\<lparr>fault := (\<lambda>t. if t = ''refreshToken'' then Some too_many_connections else None)\<rparr>)
     (login ''ada@example.org'' ''secret'') =
     (auth_store\<lparr>fault := (\<lambda>t. if t = ''refreshToken'' then Some too_many_connections else None)\<rparr>,
      [Next (Classified (RestError Unauthorized (Some ''Email and password combination is incorrect'')))]) \<and>
   authenticate demo_crypto
     (auth_store\<lparr>fault := (\<lambda>t. if t = ''user'' then Some too_many_connections else None)\<rparr>)
     (login ''ada@example.org'' ''secret'') =
     (auth_store\<lparr>fault := (\<lambda>t. if t = ''user'' then Some too_many_connections else None)\<rparr>,
      [Next (Classified (RestError Unauthorized (Some ''Email and password combination is incorrect'')))])"
proof -
  let ?req = "login ''ada@example.org'' ''secret''"
  let ?ada = "[(''userID'', JNum 1), (''email'', JStr ''ada@example.org''),
               (''password'', JStr ''$2b$secret''), (''organizationID'', JNum 94),
               (''roleID'', JNum 2)]"
  let ?st1 = "auth_store\<lparr>fault := (\<lambda>t. if t = ''refreshToken'' then Some too_many_connections else None)\<rparr>"
  let ?st2 = "auth_store\<lparr>fault := (\<lambda>t. if t = ''user'' then Some too_many_connections else None)\<rparr>"
  have t: "truthy (getprop (body ?req) ''email'')" "truthy (getprop (body ?req) ''password'')"
    by (simp_all add: login_def getprop_def)
  have g1: "db_get ?st1 ''user'' (Some ''email'') (getprop (body ?req) ''email'') JUndefined None = Inr ?ada"
    by (simp add: db_get_plain auth_store_def login_def getprop_def)
  have c1: "compare_js demo_crypto (getprop (body ?req) ''password'') (getprop ?ada ''password'') = Inr True"
    by (simp add: compare_js_def demo_crypto_def login_def getprop_def)
  have f1: "fault ?st1 ''refreshToken'' = Some too_many_connections" by simp
  have g2: "db_get ?st2 ''user'' (Some ''email'') (getprop (body ?req) ''email'') JUndefined None
              = Inl too_many_connections"
    by (simp add: db_get_plain)
  from authenticate_errors_unauthorized [OF t, of ?st1 demo_crypto] g1 c1 f1
  have 1: "authenticate demo_crypto ?st1 ?req =
     (?st1, [Next (Classified (RestError Unauthorized (Some ''Email and password combination is incorrect'')))])"
    by blast
  from authenticate_errors_unauthorized [OF t, of ?st2 demo_crypto] g2
  have 2: "authenticate demo_crypto ?st2 ?req =
     (?st2, [Next (Classified (RestError Unauthorized (Some ''Email and password combination is incorrect'')))])"
    by blast
  from 1 2 show ?thesis by (rule conjI)
qed

section \<open>Refreshing a token\<close>

lemma after_two_logins_eq:
  "after_two_logins =
     auth_store\<lparr>tables := (tables auth_store)(''refreshToken'' :=
         [[(''userID'', JNum 1), (''refreshToken'', JStr first_token)],
          [(''userID'', JNum 1), (''refreshToken'', JStr second_token)]]),
       serial := (serial auth_store)(''refreshToken'' := 2)\<rparr>"
proof -
  let ?req = "login ''ada@example.org'' ''secret''"
  let ?ada = "[(''userID'', JNum 1), (''email'', JStr ''ada@example.org''),
               (''password'', JStr ''$2b$secret''), (''organizationID'', JNum 94),
               (''roleID'', JNum 2)]"
  let ?st1 = "auth_store\<lparr>tables := (tables auth_store)(''refreshToken'' :=
         [[(''userID'', JNum 1), (''refreshToken'', JStr first_token)]]),
       serial := (serial auth_store)(''refreshToken'' := Suc 0)\<rparr>"
  have one: "show_nat (Suc 0) = ''1''" by (simp add: show_nat.simps)
  have g: "db_get auth_store ''user'' (Some ''email'') (JStr ''ada@example.org'') JUndefined None = Inr ?ada"
    by (simp add: db_get_plain auth_store_def)
  have g1: "db_get ?st1 ''user'' (Some ''email'') (JStr ''ada@example.org'') JUndefined None = Inr ?ada"
    by (simp add: db_get_plain auth_store_def)
  have 1: "fst (authenticate demo_crypto auth_store ?req) = ?st1"
    by (simp add: authenticate_def login_def getprop_def g compare_js_def makeToken_def
          demo_crypto_def insert_row_def one first_token_def Let_def)
       (simp add: auth_store_def)
  have 2: "fst (authenticate second_crypto ?st1 ?req) =
      auth_store\<lparr>tables := (tables auth_store)(''refreshToken'' :=
         [[(''userID'', JNum 1), (''refreshToken'', JStr first_token)],
          [(''userID'', JNum 1), (''refreshToken'', JStr second_token)]]),
       serial := (serial auth_store)(''refreshToken'' := Suc (Suc 0))\<rparr>"
    by (simp add: authenticate_def login_def getprop_def g1 compare_js_def makeToken_def
          demo_crypto_def second_crypto_def insert_row_def one second_token_def Let_def)
       (simp add: auth_store_def)
  show ?thesis unfolding after_two_logins_def 1 2 by (simp add: numeral_2_eq_2)
qed

text \<open>
  Claim C9. A refresh request that names a user with no stored refresh token at all (and
  carries a token) is answered with \<open>Unauthorized\<close>, ``Refresh token is invalid'': the
  empty result takes apart to \<open>undefined\<close>, which the supplied token does not equal. The
  store is unchanged, and the answer is the one a mismatching token gets.
\<close>

theorem refresh_without_stored_token:
  assumes "truthy (getprop (body req) ''refreshToken'')" and "truthy (getprop (body req) ''userID'')"
    and "fault st ''refreshToken'' = None"
    and none: "\<forall>r \<in> set (tables st ''refreshToken''). map_of r ''userID'' \<noteq> Some (getprop (body req) ''userID'')"
  shows "refresh cr st req =
           (st, [Next (Classified (RestError Unauthorized (Some ''Refresh token is invalid'')))]) \<and>
         (\<forall>st' req' r rest.
             truthy (getprop (body req') ''refreshToken'') \<and> truthy (getprop (body req') ''userID'') \<and>
             fault st' ''refreshToken'' = None \<and>
             filter (\<lambda>r. map_of r ''userID'' = Some (getprop (body req') ''userID''))
               (tables st' ''refreshToken'') = r # rest \<and>
             getprop r ''refreshToken'' \<noteq> getprop (body req') ''refreshToken''
             \<longrightarrow> snd (refresh cr st' req') = snd (refresh cr st req))"
proof -
  from none have "filter (\<lambda>r. map_of r ''userID'' = Some (getprop (body req) ''userID''))
      (tables st ''refreshToken'') = []"
    by (simp add: filter_empty_conv)
  with assms(1-3) have 1: "refresh cr st req =
      (st, [Next (Classified (RestError Unauthorized (Some ''Refresh token is invalid'')))])"
    by (auto simp: refresh_def stored_tokens_eq unauthorized_def)
  have 2: "snd (refresh cr st' req') =
      [Next (Classified (RestError Unauthorized (Some ''Refresh token is invalid'')))]"
    if "truthy (getprop (body req') ''refreshToken'')" "truthy (getprop (body req') ''userID'')"
      "fault st' ''refreshToken'' = None"
      "filter (\<lambda>r. map_of r ''userID'' = Some (getprop (body req') ''userID''))
               (tables st' ''refreshToken'') = r # rest"
      "getprop r ''refreshToken'' \<noteq> getprop (body req') ''refreshToken''"
    for st' req' r rest
    using that by (auto simp: refresh_def stored_tokens_eq unauthorized_def)
  from 1 2 show ?thesis by auto
qed

theorem refresh_without_stored_token_witness:
  "refresh demo_crypto auth_store (refreshing 1 ''1c0ffee'') =
     (auth_store, [Next (Classified (RestError Unauthorized (Some ''Refresh token is invalid'')))]) \<and>
   snd (refresh demo_crypto after_two_logins (refreshing 1 second_token)) =
     snd (refresh demo_crypto auth_store (refreshing 1 ''1c0ffee''))"
proof -
  let ?req = "refreshing 1 ''1c0ffee''"
  let ?req' = "refreshing 1 second_token"
  let ?r = "[(''userID'', JNum 1), (''refreshToken'', JStr first_token)]"
  let ?rest = "[[(''userID'', JNum 1), (''refreshToken'', JStr second_token)]]"
  have t: "truthy (getprop (body ?req) ''refreshToken'')" "truthy (getprop (body ?req) ''userID'')"
    by (simp_all add: refreshing_def getprop_def)
  have f: "fault auth_store ''refreshToken'' = None" by (simp add: auth_store_def)
  have n: "\<forall>r \<in> set (tables auth_store ''refreshToken'').
             map_of r ''userID'' \<noteq> Some (getprop (body ?req) ''userID'')"
    by (simp add: auth_store_def)
  note th = refresh_without_stored_token [OF t f n, of demo_crypto]
  have ne: "first_token \<noteq> second_token" by (simp add: first_token_def second_token_def)
  have t': "truthy (getprop (body ?req') ''refreshToken'')" "truthy (getprop (body ?req') ''userID'')"
    by (simp_all add: refreshing_def getprop_def second_token_def)
  have f': "fault after_two_logins ''refreshToken'' = None"
    by (simp add: after_two_logins_eq auth_store_def)
  have rows: "filter (\<lambda>r. map_of r ''userID'' = Some (getprop (body ?req') ''userID''))
      (tables after_two_logins ''refreshToken'') = ?r # ?rest"
    by (simp add: after_two_logins_eq refreshing_def getprop_def)
  have other: "getprop ?r ''refreshToken'' \<noteq> getprop (body ?req') ''refreshToken''"
    using ne by (simp add: refreshing_def getprop_def)
  have same: "snd (refresh demo_crypto after_two_logins ?req') = snd (refresh demo_crypto auth_store ?req)"
    by (rule th [THEN conjunct2, rule_format,
          OF conjI [OF t'(1) conjI [OF t'(2) conjI [OF f' conjI [OF rows other]]]]])
  from th [THEN conjunct1] same show ?thesis by (rule conjI)
qed

lemma second_login_reply:
  "snd (authenticate second_crypto
          (fst (authenticate demo_crypto auth_store (login ''ada@example.org'' ''secret'')))
          (login ''ada@example.org'' ''secret'')) =
     [Send 200 (Object [(''id'', JNum 1), (''refreshToken'', JStr second_token),
                        (''token'', JStr ''jwt:1''),
                        (''message'', JStr ''Authentication successful'')])]"
proof -
  let ?req = "login ''ada@example.org'' ''secret''"
  let ?ada = "[(''userID'', JNum 1), (''email'', JStr ''ada@example.org''),
               (''password'', JStr ''$2b$secret''), (''organizationID'', JNum 94),
               (''roleID'', JNum 2)]"
  let ?st1 = "auth_store\<lparr>tables := (tables auth_store)(''refreshToken'' :=
         [[(''userID'', JNum 1), (''refreshToken'', JStr first_token)]]),
       serial := (serial auth_store)(''refreshToken'' := Suc 0)\<rparr>"
  have one: "show_nat (Suc 0) = ''1''" by (simp add: show_nat.simps)
  have g: "db_get auth_store ''user'' (Some ''email'') (JStr ''ada@example.org'') JUndefined None = Inr ?ada"
    by (simp add: db_get_plain auth_store_def)
  have g1: "db_get ?st1 ''user'' (Some ''email'') (JStr ''ada@example.org'') JUndefined None = Inr ?ada"
    by (simp add: db_get_plain auth_store_def)
  have 1: "fst (authenticate demo_crypto auth_store ?req) = ?st1"
    by (simp add: authenticate_def login_def getprop_def g compare_js_def makeToken_def
          demo_crypto_def insert_row_def one first_token_def Let_def)
       (simp add: auth_store_def)
  show ?thesis
    unfolding 1
    by (simp add: authenticate_def login_def getprop_def g1 compare_js_def makeToken_def
          demo_crypto_def second_crypto_def insert_row_def one second_token_def Let_def)
       (simp add: auth_store_def getprop_def)
qed

text \<open>
  Claim C2. A user logs in twice; the store then holds two refresh tokens for her, the
  one of the second log-in stored last, and the second log-in has answered with that
  token. The handler of \<open>refresh\<close> reads the first row that the store returns for the
  user, with no ordering asked for: the token of the second log-in, the most recently
  stored one, is refused with \<open>Unauthorized\<close>, and the superseded token of the first
  log-in is answered with a new access token.
\<close>

theorem refresh_latest_token_refused:
  "after_two_logins =
     fst (authenticate second_crypto
            (fst (authenticate demo_crypto auth_store (login ''ada@example.org'' ''secret'')))
            (login ''ada@example.org'' ''secret'')) \<and>
   snd (authenticate second_crypto
          (fst (authenticate demo_crypto auth_store (login ''ada@example.org'' ''secret'')))
          (login ''ada@example.org'' ''secret'')) =
     [Send 200 (Object [(''id'', JNum 1), (''refreshToken'', JStr second_token),
                        (''token'', JStr ''jwt:1''),
                        (''message'', JStr ''Authentication successful'')])] \<and>
   tables after_two_logins ''refreshToken'' =
     [[(''userID'', JNum 1), (''refreshToken'', JStr first_token)],
      [(''userID'', JNum 1), (''refreshToken'', JStr second_token)]] \<and>
   refresh demo_crypto after_two_logins (refreshing 1 second_token) =
     (after_two_logins,
      [Next (Classified (RestError Unauthorized (Some ''Refresh token is invalid'')))]) \<and>
   refresh demo_crypto after_two_logins (refreshing 1 first_token) =
     (after_two_logins,
      [Send 200 (Object [(''token'', JStr ''jwt:1''),
                         (''message'', JStr ''Token refreshed successfully'')])])"
proof -
  have one: "show_nat (Suc 0) = ''1''" by (simp add: show_nat.simps)
  have ne: "second_token \<noteq> first_token" by (simp add: first_token_def second_token_def)
  have nonempty: "first_token \<noteq> []" "second_token \<noteq> []"
    by (simp_all add: first_token_def second_token_def)
  have rows: "tables after_two_logins ''refreshToken'' =
     [[(''userID'', JNum 1), (''refreshToken'', JStr first_token)],
      [(''userID'', JNum 1), (''refreshToken'', JStr second_token)]]"
    by (simp add: after_two_logins_eq)
  have users: "tables after_two_logins ''user'' =
     [[(''userID'', JNum 1), (''email'', JStr ''ada@example.org''),
       (''password'', JStr ''$2b$secret''), (''organizationID'', JNum 94), (''roleID'', JNum 2)]]"
    by (simp add: after_two_logins_eq auth_store_def)
  have faults: "fault after_two_logins ''refreshToken'' = None" "fault after_two_logins ''user'' = None"
    by (simp_all add: after_two_logins_eq auth_store_def)
  have stale: "refresh demo_crypto after_two_logins (refreshing 1 second_token) =
     (after_two_logins,
      [Next (Classified (RestError Unauthorized (Some ''Refresh token is invalid'')))])"
    by (simp add: refresh_def refreshing_def getprop_def stored_tokens_eq rows faults ne nonempty
          unauthorized_def)
  have first: "refresh demo_crypto after_two_logins (refreshing 1 first_token) =
     (after_two_logins,
      [Send 200 (Object [(''token'', JStr ''jwt:1''),
                         (''message'', JStr ''Token refreshed successfully'')])])"
    by (simp add: refresh_def refreshing_def getprop_def stored_tokens_eq first_user_eq rows users
          faults nonempty makeToken_def demo_crypto_def one)
  from after_two_logins_def second_login_reply rows stale first show ?thesis by (intro conjI)
qed

section \<open>Registration\<close>

lemma required_present:
  "list_all (\<lambda>key. key \<in> set (map fst b)) required = (set required \<subseteq> set (map fst b))"
  by (auto simp: list_all_iff)

text \<open>
  Claim C6, as stated, fails: a request whose body has all five keys is not always
  answered with 201. With a password that is \<open>null\<close> the key is present, the hash is
  rejected and the error goes to \<open>next\<close> as it is; so does the error of a store that
  rejects the insertion. Neither answer is a \<open>BadRequest\<close>, and no row is stored.
\<close>

theorem register_unconditional_counterexample:
  "set required \<subseteq> set (map fst (body (registration JNull))) \<and>
   register demo_crypto auth_store (registration JNull) = (auth_store, [Next (Raw typeError)]) \<and>
   set required \<subseteq> set (map fst (body (registration (JStr ''secret'')))) \<and>
   register demo_crypto users_down (registration (JStr ''secret'')) =
     (users_down, [Next (Raw too_many_connections)])"
proof -
  have keys: "set required \<subseteq> set (map fst (body (registration p)))" for p
    by (simp add: required_def registration_def)
  have 1: "register demo_crypto auth_store (registration JNull) = (auth_store, [Next (Raw typeError)])"
    unfolding register_def Let_def required_present
    by (simp add: keys hash_js_def) (simp add: registration_def getprop_def required_def)
  have 2: "register demo_crypto users_down (registration (JStr ''secret'')) =
     (users_down, [Next (Raw too_many_connections)])"
    unfolding register_def Let_def required_present
    by (simp add: keys hash_js_def insert_row_def) (simp add: registration_def getprop_def users_down_def required_def insert_row_def)
  from keys 1 2 show ?thesis by (intro conjI)
qed

text \<open>
  Claim C6, amended. If one of \<open>firstName\<close>, \<open>lastName\<close>, \<open>email\<close>, \<open>password\<close>,
  \<open>organizationID\<close> is not a key of the body, \<open>register\<close> forwards a \<open>BadRequest\<close>
  and the store is unchanged. If all are keys, the password is hashed first; when it is a
  string and the store accepts the insertion, the row stored is the body with the hash in
  the place of the password, and the answer is 201 with the new id and the message; when
  the hash or the insertion fails, the error is forwarded as it is and the store is
  unchanged.
\<close>

theorem register_outcomes:
  "(\<not> set required \<subseteq> set (map fst (body req)) \<longrightarrow>
      register cr st req = (st, [Next (Classified (RestError BadRequest None))])) \<and>
   (set required \<subseteq> set (map fst (body req)) \<longrightarrow>
      (\<forall>pw. getprop (body req) ''password'' = JStr pw \<and> fault st ''user'' = None \<longrightarrow>
         register cr st req =
           (st\<lparr>tables := (tables st)(''user'' := tables st ''user'' @
                   [setprop ''password'' (JStr (bcrypt_hash cr pw saltRounds)) (body req)]),
               serial := (serial st)(''user'' := Suc (serial st ''user''))\<rparr>,
            [Send 201 (Object [(''id'', JNum (int (Suc (serial st ''user'')))),
                               (''message'', JStr ''User successfully registered'')])]) \<and>
         getprop (setprop ''password'' (JStr (bcrypt_hash cr pw saltRounds)) (body req)) ''password''
           = JStr (bcrypt_hash cr pw saltRounds)) \<and>
      (\<forall>e. hash_js cr (getprop (body req) ''password'') saltRounds = Inl e \<longrightarrow>
         register cr st req = (st, [Next (Raw e)])) \<and>
      (\<forall>e pw. getprop (body req) ''password'' = JStr pw \<and> fault st ''user'' = Some e \<longrightarrow>
         register cr st req = (st, [Next (Raw e)])))"
  unfolding register_def Let_def required_present
  by (simp add: hash_js_def insert_row_def badRequest_def getprop_setprop)

theorem register_outcomes_witness:
  "register demo_crypto auth_store (registration (JStr ''secret'')) =
     (auth_store\<lparr>tables := (tables auth_store)(''user'' := tables auth_store ''user'' @
          [[(''firstName'', JStr ''Grace''), (''lastName'', JStr ''Hopper''),
            (''email'', JStr ''grace@example.org''), (''password'', JStr ''$2b$secret''),
            (''organizationID'', JNum 94)]]),
        serial := (serial auth_store)(''user'' := Suc (serial auth_store ''user''))\<rparr>,
      [Send 201 (Object [(''id'', JNum 1), (''message'', JStr ''User successfully registered'')])]) \<and>
   register demo_crypto auth_store
     \<lparr>params = [], body = [(''email'', JStr ''grace@example.org''), (''password'', JStr ''secret'')],
      user = None\<rparr> =
     (auth_store, [Next (Classified (RestError BadRequest None))])"
proof -
  let ?req = "registration (JStr ''secret'')"
  let ?short = "\<lparr>params = [], body = [(''email'', JStr ''grace@example.org''), (''password'', JStr ''secret'')],
      user = None\<rparr>"
  have keys: "set required \<subseteq> set (map fst (body ?req))"
    by (simp add: required_def registration_def)
  have pw: "getprop (body ?req) ''password'' = JStr ''secret'' \<and> fault auth_store ''user'' = None"
    by (simp add: registration_def getprop_def auth_store_def)
  have missing: "\<not> set required \<subseteq> set (map fst (body ?short))"
    by (simp add: required_def)
  have row: "setprop ''password'' (JStr (bcrypt_hash demo_crypto ''secret'' saltRounds)) (body ?req) =
      [(''firstName'', JStr ''Grace''), (''lastName'', JStr ''Hopper''),
       (''email'', JStr ''grace@example.org''), (''password'', JStr ''$2b$secret''),
       (''organizationID'', JNum 94)]"
    by (simp add: registration_def demo_crypto_def)
  have id: "serial auth_store ''user'' = 0" by (simp add: auth_store_def)
  note ok = register_outcomes [of ?req demo_crypto auth_store, THEN conjunct2, rule_format,
      OF keys, THEN conjunct1, rule_format, OF pw, THEN conjunct1]
  note bad = register_outcomes [of ?short demo_crypto auth_store, THEN conjunct1, rule_format,
      OF missing]
  from ok have 1: "register demo_crypto auth_store ?req =
     (auth_store\<lparr>tables := (tables auth_store)(''user'' := tables auth_store ''user'' @
          [[(''firstName'', JStr ''Grace''), (''lastName'', JStr ''Hopper''),
            (''email'', JStr ''grace@example.org''), (''password'', JStr ''$2b$secret''),
            (''organizationID'', JNum 94)]]),
        serial := (serial auth_store)(''user'' := Suc (serial auth_store ''user''))\<rparr>,
      [Send 201 (Object [(''id'', JNum 1), (''message'', JStr ''User successfully registered'')])])"
    unfolding row id by simp
  from 1 bad show ?thesis by (rule conjI)
qed

section \<open>Listing and pagination links\<close>

lemma getAll_query_plain:
  "getAll_query t org None None None =
     (from_table t)\<lparr>q_where := (if truthy org then [(t @ ''.organizationID'', org)] else [])\<rparr>"
  by (simp add: getAll_query_def run_modifier_def base_query_def buildWhere_def from_table_def)

lemma db_getAll_plain:
  "db_getAll st t org None None None =
     (case fault st t of Some e \<Rightarrow> Inl e
      | None \<Rightarrow> Inr (filter (\<lambda>r. truthy org \<longrightarrow> map_of r ''organizationID'' = Some org)
                      (tables st t)))"
proof (cases "fault st t")
  case None
  then show ?thesis
    unfolding db_getAll_def getAll_query_plain
    by (subst execute_plain) (simp_all add: from_table_def)
next
  case (Some e)
  then show ?thesis
    by (simp add: db_getAll_def getAll_query_plain execute_def from_table_def)
qed

text \<open>
  Claim C7, as stated, fails: the handler tests the values of \<open>limit\<close> and \<open>offset\<close>
  for truthiness, not the parameters for presence. A request with \<^verbatim>\<open>?limit=\<close> has the
  parameter, with the empty string as its value, and is answered with the bare results.
\<close>

theorem getAll_links_present_counterexample:
  "''limit'' \<in> set (map fst (params (limit_request []))) \<and>
   endpoint_getAll printf_errors demo_links kit_store ''kit'' no_options (limit_request []) =
     [Send 200 (Results [[(''kitID'', JNum 1), (''name'', JStr ''Camera kit''),
                          (''organizationID'', JNum 94), (''sortIndex'', JNum 0)]]),
      Next Proceed]"
  by (simp add: limit_request_def kit_request_def endpoint_getAll_def organization_arg_def
        no_options_def getprop_def bindModify_def db_getAll_plain kit_store_def js_or_def
        enumerate_eq_zip)

text \<open>
  Claim C7, amended. For a list request that the gateway answers with rows, the handler of
  \<open>getAll\<close> runs the link builder, and sends the links it adds with the results, if and
  only if \<open>limit\<close> or \<open>offset\<close> has a truthy value; a builder that fails is answered with
  the classified error, when the construction of that error does not itself throw. When
  neither value is truthy, the response is the bare results
  with no links. Either way the results are all the rows of the gateway, each with its
  index; and the query of a handler with no modifier has no window, whatever the
  parameters are.
\<close>

theorem getAll_links:
  assumes "organization_arg (hasOrganizationID opts) req = Inr org"
    and "db_getAll st t org (bindModify (modify opts) req) (sortBy opts)
           (if truthy (getprop (params req) ''search'')
            then Some (searchColumns opts, getprop (params req) ''search'') else None) = Inr rows"
    and "results = map (\<lambda>(i, result). setprop ''sortIndex'' (JNum (int i)) result) (enumerate 0 rows)"
  shows "(truthy (getprop (params req) ''limit'') \<or> truthy (getprop (params req) ''offset'') \<longrightarrow>
            (\<forall>ls. addLinks req t = Inr ls \<longrightarrow>
               endpoint_getAll errors addLinks st t opts req =
                 [AddLinks ls, Send 200 (Results results), Next Proceed]) \<and>
            (\<forall>e c. addLinks req t = Inl e \<and> chooseError errors e (messages opts) = Inr c \<longrightarrow>
               endpoint_getAll errors addLinks st t opts req =
                 [LogError e, Next (Classified c)]) \<and>
            (\<forall>e x. addLinks req t = Inl e \<and> chooseError errors e (messages opts) = Inl x \<longrightarrow>
               endpoint_getAll errors addLinks st t opts req =
                 [LogError e, Unhandled x])) \<and>
         (\<not> truthy (getprop (params req) ''limit'') \<and> \<not> truthy (getprop (params req) ''offset'') \<longrightarrow>
            endpoint_getAll errors addLinks st t opts req = [Send 200 (Results results), Next Proceed]) \<and>
         ((\<exists>ls. AddLinks ls \<in> set (endpoint_getAll errors addLinks st t opts req)) \<longrightarrow>
            truthy (getprop (params req) ''limit'') \<or> truthy (getprop (params req) ''offset'')) \<and>
         length results = length rows \<and>
         (modify opts = None \<longrightarrow>
            q_limit (getAll_query t org (bindModify (modify opts) req) (sortBy opts)
                       (if truthy (getprop (params req) ''search'')
                        then Some (searchColumns opts, getprop (params req) ''search'') else None)) = None \<and>
            q_offset (getAll_query t org (bindModify (modify opts) req) (sortBy opts)
                       (if truthy (getprop (params req) ''search'')
                        then Some (searchColumns opts, getprop (params req) ''search'') else None)) = None)"
proof -
  let ?paged = "truthy (getprop (params req) ''limit'') \<or> truthy (getprop (params req) ''offset'')"
  have or: "truthy (js_or (getprop (params req) ''limit'') (getprop (params req) ''offset'')) = ?paged"
    by (simp add: js_or_def)
  have eq: "endpoint_getAll errors addLinks st t opts req =
      (if ?paged then (case addLinks req t of
                         Inl err \<Rightarrow> handleError errors err (messages opts)
                       | Inr ls \<Rightarrow> [AddLinks ls, Send 200 (Results results), Next Proceed])
       else [Send 200 (Results results), Next Proceed])"
    unfolding assms(3) using assms(1,2)
    by (simp add: endpoint_getAll_def Let_def or del: truthy.simps)
  have window: "q_limit (getAll_query t org None sb se) = None \<and>
      q_offset (getAll_query t org None sb se) = None" for sb se
    by (simp add: getAll_query_def run_modifier_def base_query_def from_table_def Let_def)
  show ?thesis
  proof (intro conjI impI allI)
    fix ls assume "?paged" "addLinks req t = Inr ls"
    then show "endpoint_getAll errors addLinks st t opts req =
        [AddLinks ls, Send 200 (Results results), Next Proceed]"
      by (simp add: eq)
  next
    fix e c assume "?paged" "addLinks req t = Inl e \<and> chooseError errors e (messages opts) = Inr c"
    then show "endpoint_getAll errors addLinks st t opts req = [LogError e, Next (Classified c)]"
      by (simp add: eq handleError_def)
  next
    fix e x assume "?paged" "addLinks req t = Inl e \<and> chooseError errors e (messages opts) = Inl x"
    then show "endpoint_getAll errors addLinks st t opts req = [LogError e, Unhandled x]"
      by (simp add: eq handleError_def)
  next
    assume "\<not> truthy (getprop (params req) ''limit'') \<and> \<not> truthy (getprop (params req) ''offset'')"
    then show "endpoint_getAll errors addLinks st t opts req = [Send 200 (Results results), Next Proceed]"
      by (simp add: eq)
  next
    assume "\<exists>ls. AddLinks ls \<in> set (endpoint_getAll errors addLinks st t opts req)"
    then show "?paged"
      by (auto simp: eq handleError_def split: if_splits sum.splits)
  next
    show "length results = length rows" by (simp add: assms(3))
  next
    assume "modify opts = None"
    then show "q_limit (getAll_query t org (bindModify (modify opts) req) (sortBy opts)
                       (if truthy (getprop (params req) ''search'')
                        then Some (searchColumns opts, getprop (params req) ''search'') else None)) = None"
      by (simp add: bindModify_def window)
  next
    assume "modify opts = None"
    then show "q_offset (getAll_query t org (bindModify (modify opts) req) (sortBy opts)
                       (if truthy (getprop (params req) ''search'')
                        then Some (searchColumns opts, getprop (params req) ''search'') else None)) = None"
      by (simp add: bindModify_def window)
  qed
qed

theorem getAll_links_witness:
  "endpoint_getAll printf_errors demo_links kit_store ''kit'' no_options (limit_request ''1'') =
     [AddLinks [(''next'', ''/kit?limit=1&offset=1'')],
      Send 200 (Results [[(''kitID'', JNum 1), (''name'', JStr ''Camera kit''),
                          (''organizationID'', JNum 94), (''sortIndex'', JNum 0)]]),
      Next Proceed] \<and>
   endpoint_getAll printf_errors demo_links kit_store ''kit'' no_options kit_request =
     [Send 200 (Results [[(''kitID'', JNum 1), (''name'', JStr ''Camera kit''),
                          (''organizationID'', JNum 94), (''sortIndex'', JNum 0)]]),
      Next Proceed]"
proof -
  let ?rows = "[[(''kitID'', JNum 1), (''name'', JStr ''Camera kit''), (''organizationID'', JNum 94)]]"
  have o: "organization_arg (hasOrganizationID no_options) (limit_request ''1'') = Inr (JNum 94)"
      "organization_arg (hasOrganizationID no_options) kit_request = Inr (JNum 94)"
    by (simp_all add: organization_arg_def no_options_def limit_request_def kit_request_def getprop_def)
  have g: "db_getAll kit_store ''kit'' (JNum 94) (bindModify (modify no_options) (limit_request ''1''))
       (sortBy no_options)
       (if truthy (getprop (params (limit_request ''1'')) ''search'')
        then Some (searchColumns no_options, getprop (params (limit_request ''1'')) ''search'')
        else None) = Inr ?rows"
      "db_getAll kit_store ''kit'' (JNum 94) (bindModify (modify no_options) kit_request)
       (sortBy no_options)
       (if truthy (getprop (params kit_request) ''search'')
        then Some (searchColumns no_options, getprop (params kit_request) ''search'')
        else None) = Inr ?rows"
    by (simp_all add: no_options_def bindModify_def limit_request_def kit_request_def getprop_def
          db_getAll_plain kit_store_def)
  have paged: "truthy (getprop (params (limit_request ''1'')) ''limit'') \<or>
      truthy (getprop (params (limit_request ''1'')) ''offset'')"
    by (simp add: limit_request_def getprop_def)
  have bare: "\<not> truthy (getprop (params kit_request) ''limit'') \<and>
      \<not> truthy (getprop (params kit_request) ''offset'')"
    by (simp add: kit_request_def getprop_def)
  have links: "demo_links (limit_request ''1'') ''kit'' = Inr [(''next'', ''/kit?limit=1&offset=1'')]"
    by (simp add: demo_links_def)
  have idx: "map (\<lambda>(i, result). setprop ''sortIndex'' (JNum (int i)) result) (enumerate 0 ?rows) =
      [[(''kitID'', JNum 1), (''name'', JStr ''Camera kit''),
        (''organizationID'', JNum 94), (''sortIndex'', JNum 0)]]"
    by simp
  note a = getAll_links [OF o(1) g(1) refl, where addLinks = demo_links and errors = printf_errors,
      THEN conjunct1, rule_format, OF paged, THEN conjunct1, rule_format, OF links]
  note b = getAll_links [OF o(2) g(2) refl, where addLinks = demo_links and errors = printf_errors,
      THEN conjunct2, THEN conjunct1, rule_format, OF bare]
  from a b show ?thesis unfolding idx by (rule conjI)
qed

end
